theory Spec2Isabelle
  imports
    Complex_Main
    "HOL-Library.AList"
    "HOL-Library.Multiset"
    "HOL-Library.Char_ord"
    "HOL-Library.List_Lexorder"
    "HOL-Library.Log_Nat"
begin

section \<open>Values, errors and results\<close>

text \<open>
  The module \<open>my_stats\<close> fills a dictionary from statistic names to numbers or \<open>None\<close>.
  Python integers are \<open>int\<close>. A Python float is the real number it stands for, and
  every float operation rounds its exact result to binary64 (\<open>round64\<close> below).
  Exceptions are values of the type \<open>error\<close>; a call that can raise returns
  \<open>error + 'a\<close>, with \<open>Inl\<close> for the exception. \<open>LibraryError\<close> stands for an
  exception of the plotting library.
\<close>

datatype error = IndexError | KeyError | ZeroDivisionError | StatisticsError | LibraryError

datatype pyval = PyNone | PyInt int | PyFloat real

type_synonym stats = "string \<rightharpoonup> pyval"

definition and_then :: "error + 'a \<Rightarrow> ('a \<Rightarrow> error + 'b) \<Rightarrow> error + 'b" where
  "and_then r f = (case r of Inl e \<Rightarrow> Inl e | Inr v \<Rightarrow> f v)"

subsection \<open>Binary64 arithmetic\<close>

text \<open>
  A binary64 number has a significand of 53 bits. For \<open>x\<close> other than 0,
  \<open>binade x\<close> is the exponent \<open>e\<close> with \<open>2 ^ e \<le> |x| < 2 ^ (e + 1)\<close>, computed from
  the bit length of an integer (\<open>binade_bounds\<close> below), and \<open>round64 x\<close> is the
  multiple of \<open>2 ^ (e - 52)\<close> nearest to \<open>x\<close>, the one with the even significand when
  two are equally near. The exponent range is not bounded here: this is Python's
  arithmetic for results between \<open>2 ^ -1022\<close> and \<open>2 ^ 1024\<close> in magnitude, where
  Python neither raises \<open>OverflowError\<close> nor rounds to a subnormal.
\<close>

definition round_half_even :: "real \<Rightarrow> int" where
  "round_half_even x =
     (let f = \<lfloor>x\<rfloor>; d = x - of_int f
      in if d < 1 / 2 then f else if 1 / 2 < d then f + 1 else if even f then f else f + 1)"

definition binade :: "real \<Rightarrow> int" where
  "binade x =
     (if 1 \<le> \<bar>x\<bar> then int (floorlog 2 (nat \<lfloor>\<bar>x\<bar>\<rfloor>)) - 1
      else - int (floorlog 2 (nat (\<lceil>1 / \<bar>x\<bar>\<rceil> - 1))))"

definition round64 :: "real \<Rightarrow> real" where
  "round64 x =
     (if x = 0 then 0
      else (let q = 2 powi (binade x - 52) in of_int (round_half_even (x / q)) * q))"

definition py_float :: "int \<Rightarrow> real" where
  \<comment> \<open>\<open>float(n)\<close>, also the conversion of an \<open>int\<close> operand of a float operation.\<close>
  "py_float n = round64 (of_int n)"

definition py_div :: "real \<Rightarrow> real \<Rightarrow> error + real" where
  \<comment> \<open>Python's true division on floats.\<close>
  "py_div a b = (if b = 0 then Inl ZeroDivisionError else Inr (round64 (a / b)))"

definition py_mul :: "real \<Rightarrow> real \<Rightarrow> real" where
  "py_mul a b = round64 (a * b)"

definition percentage :: "int \<Rightarrow> int \<Rightarrow> real" where
  \<comment> \<open>What \<open>float(k) / n * 100.0\<close> evaluates to when \<open>n\<close> is not 0.\<close>
  "percentage k n = py_mul (round64 (py_float k / py_float n)) 100.0"

subsection \<open>The standard library's \<open>statistics.mean\<close> and \<open>statistics.pstdev\<close>\<close>

text \<open>
  Both raise \<open>StatisticsError\<close> on empty data. The mean is computed exactly and then
  converted: for integer data it is an \<open>int\<close> when it is whole and a float otherwise.
  \<open>pstdev\<close> is the population standard deviation (divisor \<open>N\<close>) around the centre
  \<open>mu\<close> it is given, as a float, rounded once here; the last bits of what the library
  returns depend on its version, and no statement below depends on them.
\<close>

definition mean :: "real list \<Rightarrow> error + real" where
  "mean data = (if data = [] then Inl StatisticsError
                else Inr (round64 (sum_list data / real (length data))))"

definition mean_int :: "int list \<Rightarrow> error + pyval" where
  "mean_int data =
     (if data = [] then Inl StatisticsError
      else if int (length data) dvd sum_list data
        then Inr (PyInt (sum_list data div int (length data)))
      else Inr (PyFloat (round64 (real_of_int (sum_list data) / real (length data)))))"

definition pstdev :: "real list \<Rightarrow> real \<Rightarrow> error + real" where
  "pstdev data mu = (if data = [] then Inl StatisticsError
     else Inr (round64 (sqrt (sum_list (map (\<lambda>v. (v - mu)\<^sup>2) data) / real (length data)))))"

fun number_of :: "pyval \<Rightarrow> real" where
  \<comment> \<open>The numeric value of an \<open>int\<close> or a float.\<close>
  "number_of (PyInt n) = real_of_int n"
| "number_of (PyFloat r) = r"
| "number_of PyNone = 0"

section \<open>The collaborators: Gene, Cell and Surface\<close>

text \<open>
  Modelled from the spec: the classes \<open>Gene\<close>, \<open>Cell\<close> and \<open>Surface\<close> are imported by
  \<open>my_stats.py\<close> and are not part of the sources at hand. Each is a record of what its
  methods answer. A gene answers its sequence of choices, its defect fraction and, for a
  step index, either a choice or an exception: what \<open>get_choice_at\<close> does at an index is
  not fixed here. A cell has a gene, a score, an age and the answers of its five
  classifiers; a surface has its dimensions, its population count and the live cells, in
  the order in which \<open>get_all\<close> enumerates them and \<open>my_map\<close> visits them.

  A choice is a Python string object: it has a value and an identity. The source compares
  a choice with the literal \<open>'d'\<close> by \<open>is\<close>, which compares identities.
\<close>

record pystr =
  str_id :: nat
  str_value :: string

definition literal_d :: pystr where
  \<comment> \<open>The object of the literal \<open>'d'\<close> in \<open>my_stats.py\<close>.\<close>
  "literal_d = \<lparr>str_id = 0, str_value = ''d''\<rparr>"

definition py_is :: "pystr \<Rightarrow> pystr \<Rightarrow> bool" where
  "py_is a b = (str_id a = str_id b)"

record gene =
  get_seq :: string
  get_choice_at :: "nat \<Rightarrow> error + pystr"
  get_defect_fraction :: real

record cell =
  get_gene :: gene
  get_score :: real
  get_age :: int
  is_tft :: bool
  is_t2t :: bool
  is_ftf :: bool
  is_alld :: bool
  is_allc :: bool

record surface =
  width :: int
  height :: int
  population :: int
  get_all :: "cell list"

fun visit :: "(cell \<Rightarrow> error + 'a) \<Rightarrow> cell list \<Rightarrow> error + 'a list" where
  "visit f [] = Inr []"
| "visit f (c # cs) =
     (case f c of
        Inl e \<Rightarrow> Inl e
      | Inr v \<Rightarrow> (case visit f cs of Inl e \<Rightarrow> Inl e | Inr vs \<Rightarrow> Inr (v # vs)))"

definition my_map :: "surface \<Rightarrow> (cell \<Rightarrow> error + 'a) \<Rightarrow> error + 'a list" where
  \<comment> \<open>Modelled from the spec: \<open>my_map\<close> applies the function to every live cell. Every
      caller passes a function that appends one value to a local list; the model returns
      that list. The first exception ends the traversal.\<close>
  "my_map s f = visit f (get_all s)"

definition wf_surface :: "surface \<Rightarrow> bool" where
  \<comment> \<open>Modelled from the spec: \<open>population\<close> is the count of live entities.\<close>
  "wf_surface s = (population s = int (length (get_all s)))"

section \<open>The aggregation passes\<close>

text \<open>
  Each pass takes the surface and the dictionary and returns both: the Python mutates
  \<open>stats\<close> in place and returns nothing. The surface is a value here, handed back as it
  was received; what the methods of the collaborators do to their objects is outside this
  model.
\<close>

fun count_defect :: "int \<Rightarrow> pystr list \<Rightarrow> int" where
  \<comment> \<open>The loop \<open>for move in initial_moves\<close> with its test \<open>'d' is move\<close>.\<close>
  "count_defect init_move_frac [] = init_move_frac"
| "count_defect init_move_frac (move # moves) =
     count_defect (if py_is literal_d move then init_move_frac + 1 else init_move_frac) moves"

definition init_move_stats :: "surface \<Rightarrow> stats \<Rightarrow> error + surface \<times> stats" where
  "init_move_stats s st =
     (if 0 \<noteq> population s then
        and_then (my_map s (\<lambda>c. get_choice_at (get_gene c) 1)) (\<lambda>initial_moves.
        and_then (py_div (py_float (count_defect 0 initial_moves))
                         (py_float (int (length initial_moves)))) (\<lambda>init_move_frac.
        Inr (s, st(''init_move_frac'' \<mapsto> PyFloat (py_mul init_move_frac 100.0)))))
      else Inr (s, st(''init_move_frac'' \<mapsto> PyNone)))"

definition fraction_def_stats :: "surface \<Rightarrow> stats \<Rightarrow> error + surface \<times> stats" where
  "fraction_def_stats s st =
     and_then
       (if 0 \<noteq> population s then
          and_then (my_map s (\<lambda>c. Inr (get_defect_fraction (get_gene c)))) (\<lambda>fraction_defect.
          and_then (mean fraction_defect) (\<lambda>m.
          and_then (pstdev fraction_defect m) (\<lambda>stddev. Inr (m, stddev))))
        else Inr (py_float 0, py_float 0))
       (\<lambda>(m, stddev).
          Inr (s, st(''def_frac_mean'' \<mapsto> PyFloat (py_mul m 100.0),
                     ''def_frac_stddev'' \<mapsto> PyFloat (py_mul stddev 100.0))))"

definition gene_length_stats :: "surface \<Rightarrow> stats \<Rightarrow> error + surface \<times> stats" where
  "gene_length_stats s st =
     and_then
       (if 0 \<noteq> population s then
          and_then (my_map s (\<lambda>c. Inr (int (length (get_seq (get_gene c))) - 1))) (\<lambda>lengths.
          and_then (mean_int lengths) (\<lambda>m.
          and_then (pstdev (map real_of_int lengths) (number_of m)) (\<lambda>stddev.
          Inr (m, PyFloat stddev))))
        else Inr (PyNone, PyNone))
       (\<lambda>(m, stddev).
          Inr (s, st(''length_mean'' \<mapsto> m, ''length_stddev'' \<mapsto> stddev)))"

definition get_score_stats :: "surface \<Rightarrow> stats \<Rightarrow> error + surface \<times> stats" where
  "get_score_stats s st =
     and_then
       (if 0 \<noteq> population s then
          and_then (my_map s (\<lambda>c. Inr (get_score c))) (\<lambda>scores.
          and_then (mean scores) (\<lambda>m.
          and_then (pstdev scores m) (\<lambda>stddev. Inr (PyFloat m, PyFloat stddev))))
        else Inr (PyNone, PyNone))
       (\<lambda>(m, stddev).
          Inr (s, st(''scores_mean'' \<mapsto> m, ''scores_stddev'' \<mapsto> stddev)))"

definition get_age_stats :: "surface \<Rightarrow> stats \<Rightarrow> error + surface \<times> stats" where
  "get_age_stats s st =
     and_then
       (if 0 \<noteq> population s then
          and_then (my_map s (\<lambda>c. Inr (get_age c))) (\<lambda>ages.
          and_then (mean_int ages) (\<lambda>m.
          and_then (pstdev (map real_of_int ages) (number_of m)) (\<lambda>stddev.
          Inr (m, PyFloat stddev))))
        else Inr (PyNone, PyNone))
       (\<lambda>(m, stddev).
          Inr (s, st(''age_mean'' \<mapsto> m, ''age_stddev'' \<mapsto> stddev)))"

record counters =
  num_tfts :: int
  num_t2ts :: int
  num_ftfs :: int
  num_alld :: int
  num_allc :: int

fun count_rules :: "counters \<Rightarrow> cell list \<Rightarrow> counters" where
  \<comment> \<open>The loop \<open>for c in surface.get_all()\<close> with its \<open>if\<close>/\<open>elif\<close> chain.\<close>
  "count_rules n [] = n"
| "count_rules n (c # cs) =
     count_rules
       (if is_tft c then n\<lparr>num_tfts := num_tfts n + 1\<rparr>
        else if is_t2t c then n\<lparr>num_t2ts := num_t2ts n + 1\<rparr>
        else if is_ftf c then n\<lparr>num_ftfs := num_ftfs n + 1\<rparr>
        else if is_alld c then n\<lparr>num_alld := num_alld n + 1\<rparr>
        else if is_allc c then n\<lparr>num_allc := num_allc n + 1\<rparr>
        else n)
       cs"

definition get_rule_stats :: "surface \<Rightarrow> stats \<Rightarrow> error + surface \<times> stats" where
  "get_rule_stats s st =
     and_then
       (if 0 \<noteq> population s then
          (let n = count_rules
                     \<lparr>num_tfts = 0, num_t2ts = 0, num_ftfs = 0, num_alld = 0, num_allc = 0\<rparr>
                     (get_all s)
           in
           and_then (py_div (py_float (num_tfts n)) (py_float (population s))) (\<lambda>frac_tfts.
           and_then (py_div (py_float (num_t2ts n)) (py_float (population s))) (\<lambda>frac_t2ts.
           and_then (py_div (py_float (num_ftfs n)) (py_float (population s))) (\<lambda>frac_ftfs.
           and_then (py_div (py_float (num_alld n)) (py_float (population s))) (\<lambda>frac_alld.
           and_then (py_div (py_float (num_allc n)) (py_float (population s))) (\<lambda>frac_allc.
           Inr (frac_tfts, frac_t2ts, frac_ftfs, frac_alld, frac_allc)))))))
        else Inr (py_float 0, py_float 0, py_float 0, py_float 0, py_float 0))
       (\<lambda>(frac_tfts, frac_t2ts, frac_ftfs, frac_alld, frac_allc).
          Inr (s, st(''rule_frac_tfts'' \<mapsto> PyFloat (py_mul frac_tfts 100.0),
                     ''rule_frac_t2ts'' \<mapsto> PyFloat (py_mul frac_t2ts 100.0),
                     ''rule_frac_ftfs'' \<mapsto> PyFloat (py_mul frac_ftfs 100.0),
                     ''rule_frac_alld'' \<mapsto> PyFloat (py_mul frac_alld 100.0),
                     ''rule_frac_allc'' \<mapsto> PyFloat (py_mul frac_allc 100.0))))"

definition get_population_stats :: "surface \<Rightarrow> stats \<Rightarrow> error + surface \<times> stats" where
  "get_population_stats s st =
     (let map_size = width s * height s in
      and_then (py_div (py_float (population s)) (py_float map_size)) (\<lambda>rel_population.
      Inr (s, st(''pop_rel'' \<mapsto> PyFloat (py_mul rel_population 100.0),
                 ''pop_abs'' \<mapsto> PyInt (population s)))))"

definition get_stats :: "surface \<Rightarrow> error + surface \<times> stats" where
  "get_stats s =
     and_then (init_move_stats s Map.empty) (\<lambda>(s, st).
     and_then (fraction_def_stats s st) (\<lambda>(s, st).
     and_then (gene_length_stats s st) (\<lambda>(s, st).
     and_then (get_score_stats s st) (\<lambda>(s, st).
     and_then (get_rule_stats s st) (\<lambda>(s, st).
     and_then (get_age_stats s st) (\<lambda>(s, st).
     Inr (s, st)))))))"

subsection \<open>The six calls of \<open>get_stats\<close>, by name\<close>

text \<open>
  \<open>get_stats\<close> calls six passes one after the other. To speak about other orders of the
  same calls, the passes get names; \<open>run_passes\<close> runs a list of them the way
  \<open>get_stats\<close> runs its own, and \<open>keys_written\<close> lists the keys each one assigns.
\<close>

datatype pass = Init_move | Fraction_def | Gene_length | Score | Rule | Age

fun run_pass :: "pass \<Rightarrow> surface \<Rightarrow> stats \<Rightarrow> error + surface \<times> stats" where
  "run_pass Init_move = init_move_stats"
| "run_pass Fraction_def = fraction_def_stats"
| "run_pass Gene_length = gene_length_stats"
| "run_pass Score = get_score_stats"
| "run_pass Rule = get_rule_stats"
| "run_pass Age = get_age_stats"

fun run_passes :: "pass list \<Rightarrow> surface \<Rightarrow> stats \<Rightarrow> error + surface \<times> stats" where
  "run_passes [] s st = Inr (s, st)"
| "run_passes (p # ps) s st = and_then (run_pass p s st) (\<lambda>(s, st). run_passes ps s st)"

definition get_stats_order :: "pass list" where
  "get_stats_order = [Init_move, Fraction_def, Gene_length, Score, Rule, Age]"

fun keys_written :: "pass \<Rightarrow> string set" where
  "keys_written Init_move = {''init_move_frac''}"
| "keys_written Fraction_def = {''def_frac_mean'', ''def_frac_stddev''}"
| "keys_written Gene_length = {''length_mean'', ''length_stddev''}"
| "keys_written Score = {''scores_mean'', ''scores_stddev''}"
| "keys_written Rule = {''rule_frac_tfts'', ''rule_frac_t2ts'', ''rule_frac_ftfs'',
                         ''rule_frac_alld'', ''rule_frac_allc''}"
| "keys_written Age = {''age_mean'', ''age_stddev''}"

definition delta :: "pass \<Rightarrow> surface \<Rightarrow> error + stats" where
  \<comment> \<open>What a pass writes, observed on an empty dictionary.\<close>
  "delta p s = and_then (run_pass p s Map.empty) (\<lambda>(s', d). Inr d)"

subsection \<open>The rule categories, as the specification words them\<close>

text \<open>
  The specification classifies each entity into at most one of five categories, the first
  matching classifier in the order tit-for-tat, two-tits-for-tat, forgiving-tit-for-tat,
  always-defect, always-cooperate. \<open>category\<close> follows these words; \<open>count_rules\<close>
  above follows the source.
\<close>

datatype rule = Tft | T2t | Ftf | Alld | Allc

definition category :: "cell \<Rightarrow> rule option" where
  "category c =
     (if is_tft c then Some Tft
      else if is_t2t c then Some T2t
      else if is_ftf c then Some Ftf
      else if is_alld c then Some Alld
      else if is_allc c then Some Allc
      else None)"

definition count_of :: "rule \<Rightarrow> cell list \<Rightarrow> nat" where
  "count_of r cs = length (filter (\<lambda>c. category c = Some r) cs)"

section \<open>The series plotter\<close>

text \<open>
  \<open>output_plot\<close> receives a list of dictionaries. A Python dictionary iterates in
  insertion order, so a dictionary is an association list here; its keys are distinct.
  The value \<open>plot_data[key]\<close> is a dictionary with the four fixed keys \<open>x\<close>,
  \<open>y\<close>, \<open>mode\<close> and \<open>name\<close>: a record. \<open>go.Scatter\<close> wraps such a
  dictionary unchanged. The last line calls \<open>py.plot\<close> of the plotting library, which
  is not part of the repository: what that call writes, and whether it raises, is a
  parameter of the model, a function from the traces, the file name and the files before
  the call to the outcome and the files after it.
\<close>

type_synonym pydict = "(string \<times> pyval) list"

record trace =
  trace_x :: "nat list"
  trace_y :: "pyval list"
  trace_mode :: string
  trace_name :: string

type_synonym plot_data = "(string \<times> trace) list"

type_synonym files = "string \<rightharpoonup> trace list"

type_synonym plotter = "trace list \<Rightarrow> string \<Rightarrow> files \<Rightarrow> (error + unit) \<times> files"

fun init_plot_data :: "plot_data \<Rightarrow> string list \<Rightarrow> plot_data" where
  \<comment> \<open>The loop \<open>for key in data[0].keys()\<close>.\<close>
  "init_plot_data pd [] = pd"
| "init_plot_data pd (key # keys) =
     init_plot_data
       (AList.update key
          \<lparr>trace_x = [], trace_y = [], trace_mode = ''lines+markers'', trace_name = key\<rparr> pd)
       keys"

definition append_point :: "nat \<Rightarrow> plot_data \<Rightarrow> string \<times> pyval \<Rightarrow> error + plot_data" where
  \<comment> \<open>The two \<open>append\<close> lines; the lookup \<open>plot_data[k]\<close> raises on a missing key.\<close>
  "append_point i pd kv =
     (case map_of pd (fst kv) of
        None \<Rightarrow> Inl KeyError
      | Some t \<Rightarrow>
          Inr (AList.update (fst kv)
                 (t\<lparr>trace_x := trace_x t @ [i], trace_y := trace_y t @ [snd kv]\<rparr>) pd))"

fun add_items :: "nat \<Rightarrow> plot_data \<Rightarrow> pydict \<Rightarrow> error + plot_data" where
  \<comment> \<open>The loop \<open>for k, v in d.items()\<close>.\<close>
  "add_items i pd [] = Inr pd"
| "add_items i pd (kv # kvs) = and_then (append_point i pd kv) (\<lambda>pd. add_items i pd kvs)"

fun add_records :: "nat \<Rightarrow> plot_data \<Rightarrow> pydict list \<Rightarrow> error + plot_data" where
  \<comment> \<open>The loop \<open>for i, d in enumerate(data)\<close>.\<close>
  "add_records i pd [] = Inr pd"
| "add_records i pd (d # ds) = and_then (add_items i pd d) (\<lambda>pd. add_records (Suc i) pd ds)"

fun scatter_all :: "plot_data \<Rightarrow> string list \<Rightarrow> error + trace list" where
  \<comment> \<open>The loop \<open>for k in sorted(plot_data.keys())\<close>.\<close>
  "scatter_all pd [] = Inr []"
| "scatter_all pd (k # ks) =
     (case map_of pd k of
        None \<Rightarrow> Inl KeyError
      | Some t \<Rightarrow> and_then (scatter_all pd ks) (\<lambda>to_plot. Inr (t # to_plot)))"

definition build_plot :: "pydict list \<Rightarrow> error + trace list" where
  \<comment> \<open>Everything before the call of \<open>py.plot\<close>; \<open>data[0]\<close> raises on an empty list.\<close>
  "build_plot data =
     (case data of
        [] \<Rightarrow> Inl IndexError
      | d0 # _ \<Rightarrow>
          and_then (add_records 0 (init_plot_data [] (map fst d0)) data) (\<lambda>pd.
          scatter_all pd (sort (map fst pd))))"

definition output_plot ::
  "plotter \<Rightarrow> string \<Rightarrow> pydict list \<Rightarrow> files \<Rightarrow> (error + unit) \<times> files" where
  \<comment> \<open>The outcome of the call and the files after it; an exception before the last line
      leaves the files as they were.\<close>
  "output_plot py_plot path data fs =
     (case build_plot data of
        Inl e \<Rightarrow> (Inl e, fs)
      | Inr to_plot \<Rightarrow> py_plot to_plot path fs)"

section \<open>Example inputs\<close>

text \<open>
  Choice objects: \<open>interned\<close> gives every character one object, the literal's own for
  \<open>d\<close>; \<open>indexed\<close> gives objects with the same values that are not the literal's, as
  indexing a string yields on CPython 3.11. An example gene answers \<open>get_choice_at\<close> by
  indexing its choices. The surfaces: five cells, one in each rule category; the same five
  cells with indexed choices; nine cells in three categories; an empty surface; three cells
  on a 2 by 2 grid. \<open>write_chart\<close> is a plotting call that writes the traces at the
  file name.
\<close>

definition interned :: "char \<Rightarrow> pystr" where
  "interned ch = (if ch = CHR ''d'' then literal_d
                  else \<lparr>str_id = 1 + of_char ch, str_value = [ch]\<rparr>)"

definition indexed :: "char \<Rightarrow> pystr" where
  "indexed ch = \<lparr>str_id = 1000 + of_char ch, str_value = [ch]\<rparr>"

definition example_cell ::
  "(char \<Rightarrow> pystr) \<Rightarrow> string \<Rightarrow> bool \<Rightarrow> bool \<Rightarrow> bool \<Rightarrow> bool \<Rightarrow> bool \<Rightarrow> cell" where
  "example_cell object_of choices tft t2t ftf alld allc =
     \<lparr>get_gene =
        \<lparr>get_seq = choices,
         get_choice_at = (\<lambda>i. if i < length choices then Inr (object_of (choices ! i))
                               else Inl IndexError),
         get_defect_fraction = 1 / 2\<rparr>,
      get_score = 7, get_age = 3,
      is_tft = tft, is_t2t = t2t, is_ftf = ftf, is_alld = alld, is_allc = allc\<rparr>"

definition five_rules :: surface where
  "five_rules =
     \<lparr>width = 3, height = 3, population = 5,
      get_all = [example_cell interned ''cd'' True False False False False,
                 example_cell interned ''cc'' False True False False False,
                 example_cell interned ''cd'' False False True False False,
                 example_cell interned ''dd'' False False False True False,
                 example_cell interned ''cc'' False False False False True]\<rparr>"

definition five_rules_indexed :: surface where
  "five_rules_indexed =
     \<lparr>width = 3, height = 3, population = 5,
      get_all = [example_cell indexed ''cd'' True False False False False,
                 example_cell indexed ''cc'' False True False False False,
                 example_cell indexed ''cd'' False False True False False,
                 example_cell indexed ''dd'' False False False True False,
                 example_cell indexed ''cc'' False False False False True]\<rparr>"

definition nine_cells :: surface where
  "nine_cells =
     \<lparr>width = 3, height = 3, population = 9,
      get_all = [example_cell interned ''cc'' False True False False False,
                 example_cell interned ''cd'' False False True False False,
                 example_cell interned ''cd'' False False True False False,
                 example_cell interned ''cd'' False False True False False,
                 example_cell interned ''cd'' False False True False False,
                 example_cell interned ''cd'' False False True False False,
                 example_cell interned ''cd'' False False True False False,
                 example_cell interned ''cd'' False False True False False,
                 example_cell interned ''dd'' False False False True False]\<rparr>"

definition empty_surface :: surface where
  "empty_surface = \<lparr>width = 2, height = 2, population = 0, get_all = []\<rparr>"

definition three_on_four :: surface where
  "three_on_four =
     \<lparr>width = 2, height = 2, population = 3,
      get_all = [example_cell interned ''cd'' True False False False False,
                 example_cell interned ''cc'' False False False False True,
                 example_cell interned ''dd'' False False False True False]\<rparr>"

definition write_chart :: plotter where
  "write_chart to_plot path fs = (Inr (), fs(path \<mapsto> to_plot))"

section \<open>Properties of the arithmetic\<close>

lemma floorlog2_bounds:
  assumes "0 < n"
  shows "0 < floorlog 2 n" "(2::real) ^ (floorlog 2 n - 1) \<le> real n"
    "real n + 1 \<le> 2 ^ floorlog 2 n"
proof -
  show "0 < floorlog 2 n" using assms by (simp add: floorlog_def)
  from floorlog_bounds [where b=2 and x=n] assms
  have lo: "2 ^ (floorlog 2 n - 1) \<le> n" and hi: "n + 1 \<le> 2 ^ floorlog 2 n" by auto
  from lo have "real (2 ^ (floorlog 2 n - 1)) \<le> real n" by (simp only: of_nat_le_iff)
  then show "(2::real) ^ (floorlog 2 n - 1) \<le> real n" by simp
  from hi have "real (n + 1) \<le> real (2 ^ floorlog 2 n)" by (simp only: of_nat_le_iff)
  then show "real n + 1 \<le> 2 ^ floorlog 2 n" by simp
qed

lemma binade_bounds:
  assumes "x \<noteq> 0"
  shows "2 powi binade x \<le> \<bar>x\<bar>" "\<bar>x\<bar> < 2 powi (binade x + 1)"
proof -
  have "2 powi binade x \<le> \<bar>x\<bar> \<and> \<bar>x\<bar> < 2 powi (binade x + 1)"
  proof (cases "1 \<le> \<bar>x\<bar>")
    case True
    define n where "n = nat \<lfloor>\<bar>x\<bar>\<rfloor>"
    from True have "1 \<le> \<lfloor>\<bar>x\<bar>\<rfloor>" by (simp add: le_floor_iff)
    then have n: "0 < n" "real n \<le> \<bar>x\<bar>" "\<bar>x\<bar> < real n + 1"
      unfolding n_def by linarith+
    define k where "k = floorlog 2 n"
    have k: "0 < k" "(2::real) ^ (k - 1) \<le> real n" "real n + 1 \<le> 2 ^ k"
      unfolding k_def using floorlog2_bounds [OF n(1)] by simp_all
    have b: "binade x = int (k - 1)" "binade x + 1 = int k"
      using True k(1) by (simp_all add: binade_def n_def k_def)
    have lo: "(2::real) powi binade x = 2 ^ (k - 1)"
      unfolding b(1) by (simp only: power_int_of_nat)
    have hi: "(2::real) powi (binade x + 1) = 2 ^ k"
      unfolding b(2) by (simp only: power_int_of_nat)
    from n(2) k(2) have "(2::real) ^ (k - 1) \<le> \<bar>x\<bar>" by (rule order_trans [rotated])
    moreover from n(3) k(3) have "\<bar>x\<bar> < 2 ^ k" by (rule less_le_trans)
    ultimately show ?thesis unfolding lo hi by simp
  next
    case False
    with assms have x: "0 < \<bar>x\<bar>" "\<bar>x\<bar> < 1" by simp_all
    define y where "y = 1 / \<bar>x\<bar>"
    from x have y: "1 < y" "0 < y" unfolding y_def by simp_all
    define m where "m = nat (\<lceil>y\<rceil> - 1)"
    from y have c: "2 \<le> \<lceil>y\<rceil>" by (simp add: le_ceiling_iff)
    then have m: "0 < m" "real m < y" "y \<le> real m + 1"
      unfolding m_def by linarith+
    define k where "k = floorlog 2 m"
    have k: "0 < k" "(2::real) ^ (k - 1) \<le> real m" "real m + 1 \<le> 2 ^ k"
      unfolding k_def using floorlog2_bounds [OF m(1)] by simp_all
    have b: "binade x = - int k" "binade x + 1 = - int (k - 1)"
      using False k(1) by (simp_all add: binade_def y_def m_def k_def)
    from m(3) k(3) have yhi: "y \<le> 2 ^ k" by (rule order_trans)
    from k(2) m(2) have ylo: "(2::real) ^ (k - 1) < y" by (rule le_less_trans)
    have lo: "(2::real) powi binade x = 1 / 2 ^ k"
      unfolding b(1) by (simp add: power_int_minus field_simps)
    have hi: "(2::real) powi (binade x + 1) = 1 / 2 ^ (k - 1)"
      unfolding b(2) by (simp add: power_int_minus field_simps)
    have "1 / 2 ^ k \<le> 1 / y" using yhi y(2) by (simp add: frac_le)
    moreover have "1 / y < 1 / 2 ^ (k - 1)" using ylo by (simp add: frac_less2)
    moreover have "1 / y = \<bar>x\<bar>" unfolding y_def by simp
    ultimately show ?thesis unfolding lo hi by simp
  qed
  then show "2 powi binade x \<le> \<bar>x\<bar>" "\<bar>x\<bar> < 2 powi (binade x + 1)" by simp_all
qed

lemma round_half_even_nearest: "\<bar>real_of_int (round_half_even z) - z\<bar> \<le> 1 / 2"
  unfolding round_half_even_def Let_def by (simp; linarith)

lemma round_half_even_nonzero:
  assumes "1 \<le> \<bar>z\<bar>"
  shows "round_half_even z \<noteq> 0"
proof
  assume "round_half_even z = 0"
  with round_half_even_nearest [of z] have "\<bar>z\<bar> \<le> 1 / 2" by simp
  with assms show False by simp
qed

lemma round64_zero [simp]: "round64 0 = 0"
  by (simp add: round64_def)

lemma round64_eq_0_iff [simp]: "round64 x = 0 \<longleftrightarrow> x = 0"
proof
  assume r: "round64 x = 0"
  show "x = 0"
  proof (rule ccontr)
    assume x: "x \<noteq> 0"
    define q :: real where "q = 2 powi (binade x - 52)"
    have q: "0 < q" unfolding q_def by simp
    have "q \<le> 2 powi binade x" unfolding q_def by (rule power_int_increasing) simp_all
    also have "\<dots> \<le> \<bar>x\<bar>" using binade_bounds(1) [OF x] .
    finally have "1 \<le> \<bar>x\<bar> / q" using q by (simp add: le_divide_eq)
    then have "1 \<le> \<bar>x / q\<bar>" using q by simp
    then have "round_half_even (x / q) \<noteq> 0" by (rule round_half_even_nonzero)
    with r x q show False by (simp add: round64_def q_def Let_def)
  qed
next
  assume "x = 0"
  then show "round64 x = 0" by simp
qed

lemma round64_error:
  assumes "x \<noteq> 0"
  shows "\<bar>round64 x - x\<bar> \<le> 2 powi (binade x - 52) / 2"
proof -
  define q :: real where "q = 2 powi (binade x - 52)"
  have q: "0 < q" unfolding q_def by simp
  have "round64 x - x = (real_of_int (round_half_even (x / q)) - x / q) * q"
    using assms q by (simp add: round64_def q_def Let_def algebra_simps)
  then have "\<bar>round64 x - x\<bar> = \<bar>real_of_int (round_half_even (x / q)) - x / q\<bar> * q"
    using q by (simp add: abs_mult)
  also have "\<dots> \<le> 1 / 2 * q"
    using round_half_even_nearest [of "x / q"] q by (rule mult_right_mono [OF _ less_imp_le])
  finally show ?thesis unfolding q_def by simp
qed

lemma round64_relative_error: "\<bar>round64 x - x\<bar> \<le> \<bar>x\<bar> / 2 ^ 53"
proof (cases "x = 0")
  case True
  then show ?thesis by simp
next
  case False
  have "(2::real) powi (binade x - 52) = 2 powi binade x / 2 ^ 52"
    by (simp add: power_int_diff)
  then have "(2::real) powi (binade x - 52) / 2 = 2 powi binade x / 2 ^ 53" by simp
  also have "\<dots> \<le> \<bar>x\<bar> / 2 ^ 53"
    using binade_bounds(1) [OF False] by (simp add: divide_right_mono)
  finally show ?thesis using round64_error [OF False] by linarith
qed

lemma py_float_eq_0_iff [simp]: "py_float n = 0 \<longleftrightarrow> n = 0"
  by (simp add: py_float_def)

lemma py_float_0 [simp]: "py_float 0 = 0"
  by (simp add: py_float_def)

lemma py_mul_0 [simp]: "py_mul 0 b = 0"
  by (simp add: py_mul_def)

lemma py_div_percentage:
  "n \<noteq> 0 \<Longrightarrow> and_then (py_div (py_float k) (py_float n)) (\<lambda>q. f (py_mul q 100.0))
     = f (percentage k n)"
  by (simp add: py_div_def percentage_def and_then_def)

lemma percentage_zero [simp]: "percentage 0 n = 0"
  by (simp add: percentage_def)

lemma percentage_1_5: "percentage 1 5 = 20.0"
  by code_simp

lemma percentage_3_5: "percentage 3 5 = 60.0"
  by code_simp

lemma percentage_3_4: "percentage 3 4 = 75.0"
  by code_simp

lemma percentage_1_9: "percentage 1 9 = 6254999482459022 / 2 ^ 49"
  by code_simp

lemma percentage_7_9: "percentage 7 9 = 5473124547151645 / 2 ^ 46"
  by code_simp

lemma percentages_exceed_100:
  "100 < percentage 0 9 + percentage 1 9 + percentage 7 9 + percentage 1 9 + percentage 0 9"
  unfolding percentage_zero percentage_1_9 percentage_7_9 by simp

section \<open>Properties of the aggregation passes\<close>

lemmas pass_defs = init_move_stats_def fraction_def_stats_def gene_length_stats_def
  get_score_stats_def get_rule_stats_def get_age_stats_def

lemma and_then_Inr_iff:
  "and_then r f = Inr v \<longleftrightarrow> (\<exists>u. r = Inr u \<and> f u = Inr v)"
  by (cases r) (simp_all add: and_then_def)

lemma and_then_simps [simp]:
  "and_then (Inl e) f = Inl e" "and_then (Inr u) f = f u"
  by (simp_all add: and_then_def)

lemma get_stats_run_passes: "get_stats s = run_passes get_stats_order s Map.empty"
  by (simp add: get_stats_def get_stats_order_def split_def)

lemma init_move_frame:
  "init_move_stats s st = and_then (init_move_stats s Map.empty) (\<lambda>(s', d). Inr (s, st ++ d))"
  by (simp add: init_move_stats_def and_then_def split: sum.splits)

lemma fraction_def_frame:
  "fraction_def_stats s st = and_then (fraction_def_stats s Map.empty) (\<lambda>(s', d). Inr (s, st ++ d))"
  by (simp add: fraction_def_stats_def and_then_def split: sum.splits)

lemma gene_length_frame:
  "gene_length_stats s st = and_then (gene_length_stats s Map.empty) (\<lambda>(s', d). Inr (s, st ++ d))"
  by (simp add: gene_length_stats_def and_then_def split: sum.splits)

lemma score_frame:
  "get_score_stats s st = and_then (get_score_stats s Map.empty) (\<lambda>(s', d). Inr (s, st ++ d))"
  by (simp add: get_score_stats_def and_then_def split: sum.splits)

lemma age_frame:
  "get_age_stats s st = and_then (get_age_stats s Map.empty) (\<lambda>(s', d). Inr (s, st ++ d))"
  by (simp add: get_age_stats_def and_then_def split: sum.splits)

lemma rule_frame:
  "get_rule_stats s st = and_then (get_rule_stats s Map.empty) (\<lambda>(s', d). Inr (s, st ++ d))"
  by (simp add: get_rule_stats_def and_then_def py_div_def Let_def split: sum.splits)

lemma run_pass_frame:
  "run_pass p s st = and_then (delta p s) (\<lambda>d. Inr (s, st ++ d))"
proof (cases p)
  case Init_move then show ?thesis
    using init_move_frame [of s st] by (simp add: delta_def and_then_def split: sum.splits)
next
  case Fraction_def then show ?thesis
    using fraction_def_frame [of s st] by (simp add: delta_def and_then_def split: sum.splits)
next
  case Gene_length then show ?thesis
    using gene_length_frame [of s st] by (simp add: delta_def and_then_def split: sum.splits)
next
  case Score then show ?thesis
    using score_frame [of s st] by (simp add: delta_def and_then_def split: sum.splits)
next
  case Rule then show ?thesis
    using rule_frame [of s st] by (simp add: delta_def and_then_def split: sum.splits)
next
  case Age then show ?thesis
    using age_frame [of s st] by (simp add: delta_def and_then_def split: sum.splits)
qed

lemma dom_delta: "delta p s = Inr d \<Longrightarrow> dom d = keys_written p"
  by (cases p)
     (auto simp: delta_def pass_defs and_then_def py_div_def Let_def
           split: sum.splits if_splits prod.splits)

lemma keys_written_disjoint: "p \<noteq> q \<Longrightarrow> keys_written p \<inter> keys_written q = {}"
  by (cases p; cases q) simp_all


lemma run_passes_Cons_iff:
  "run_passes (p # ps) s st = Inr r \<longleftrightarrow>
     (\<exists>d. delta p s = Inr d \<and> run_passes ps s (st ++ d) = Inr r)"
  by (cases "delta p s") (simp_all add: run_pass_frame)

lemma run_passes_frame:
  "run_passes ps s st = Inr (s', st') \<Longrightarrow> s' = s"
proof (induction ps arbitrary: st)
  case Nil
  then show ?case by simp
next
  case (Cons p ps)
  then show ?case unfolding run_passes_Cons_iff by blast
qed

lemma run_passes_ok:
  "(\<exists>r. run_passes ps s st = Inr r) \<longleftrightarrow> (\<forall>p\<in>set ps. \<exists>d. delta p s = Inr d)"
proof (induction ps arbitrary: st)
  case Nil
  then show ?case by simp
next
  case (Cons p ps)
  have "(\<exists>r. run_passes (p # ps) s st = Inr r) \<longleftrightarrow>
        (\<exists>d. delta p s = Inr d \<and> (\<exists>r. run_passes ps s (st ++ d) = Inr r))"
    unfolding run_passes_Cons_iff by blast
  also have "\<dots> \<longleftrightarrow> (\<exists>d. delta p s = Inr d) \<and> (\<forall>q\<in>set ps. \<exists>d. delta q s = Inr d)"
    unfolding Cons.IH by blast
  finally show ?case by simp
qed

lemma run_passes_outside:
  "run_passes ps s st = Inr (s', st') \<Longrightarrow> \<forall>p\<in>set ps. k \<notin> keys_written p \<Longrightarrow> st' k = st k"
proof (induction ps arbitrary: st)
  case Nil
  then show ?case by simp
next
  case (Cons p ps)
  from Cons.prems(1) obtain d where d: "delta p s = Inr d"
    and rest: "run_passes ps s (st ++ d) = Inr (s', st')"
    unfolding run_passes_Cons_iff by blast
  from Cons.prems(2) have "k \<notin> dom d" using dom_delta [OF d] by simp
  then have "(st ++ d) k = st k" by (simp add: map_add_dom_app_simps)
  moreover have "st' k = (st ++ d) k" using Cons.IH [OF rest] Cons.prems(2) by simp
  ultimately show ?case by simp
qed

lemma run_passes_inside:
  "run_passes ps s st = Inr (s', st') \<Longrightarrow> distinct ps \<Longrightarrow> p \<in> set ps \<Longrightarrow>
   k \<in> keys_written p \<Longrightarrow> delta p s = Inr d \<Longrightarrow> st' k = d k"
proof (induction ps arbitrary: st)
  case Nil
  then show ?case by simp
next
  case (Cons q ps)
  from Cons.prems(1) obtain dq where dq: "delta q s = Inr dq"
    and rest: "run_passes ps s (st ++ dq) = Inr (s', st')"
    unfolding run_passes_Cons_iff by blast
  show ?case
  proof (cases "p = q")
    case True
    have "k \<notin> keys_written r" if "r \<in> set ps" for r
    proof -
      from that Cons.prems(2) True have "r \<noteq> p" by auto
      then show ?thesis using keys_written_disjoint [of r p] Cons.prems(4) by blast
    qed
    then have "\<forall>r\<in>set ps. k \<notin> keys_written r" by blast
    with rest have "st' k = (st ++ dq) k" by (rule run_passes_outside)
    moreover have "k \<in> dom d" using dom_delta [OF Cons.prems(5)] Cons.prems(4) by simp
    moreover have "dq = d" using True dq Cons.prems(5) by simp
    ultimately show ?thesis by (simp add: map_add_dom_app_simps)
  next
    case False
    with Cons.prems have "p \<in> set ps" "distinct ps" by simp_all
    from Cons.IH [OF rest this(2) this(1) Cons.prems(4) Cons.prems(5)] show ?thesis .
  qed
qed

lemma run_passes_permute:
  assumes "mset ps = mset qs" "distinct qs"
  shows "map_sum (\<lambda>e. ()) id (run_passes ps s st) = map_sum (\<lambda>e. ()) id (run_passes qs s st)"
proof -
  from assms have set_eq: "set ps = set qs" and dps: "distinct ps"
    by (metis mset_eq_setD, metis mset_eq_imp_distinct_iff)
  show ?thesis
  proof (cases "\<forall>p\<in>set ps. \<exists>d. delta p s = Inr d")
    case False
    then have "\<not> (\<exists>r. run_passes ps s st = Inr r)" "\<not> (\<exists>r. run_passes qs s st = Inr r)"
      using run_passes_ok [of ps s st] run_passes_ok [of qs s st] set_eq by auto
    then show ?thesis
      by (cases "run_passes ps s st"; cases "run_passes qs s st") auto
  next
    case True
    then obtain s1 st1 s2 st2 where r1: "run_passes ps s st = Inr (s1, st1)"
      and r2: "run_passes qs s st = Inr (s2, st2)"
      using run_passes_ok [of ps s st] run_passes_ok [of qs s st] set_eq by fastforce
    have "s1 = s" "s2 = s" using r1 r2 run_passes_frame by blast+
    moreover have "st1 k = st2 k" for k
    proof (cases "\<exists>p\<in>set ps. k \<in> keys_written p")
      case True
      then obtain p where p: "p \<in> set ps" "k \<in> keys_written p" by blast
      with \<open>\<forall>p\<in>set ps. \<exists>d. delta p s = Inr d\<close> obtain d where d: "delta p s = Inr d" by blast
      have "st1 k = d k" using run_passes_inside [OF r1 dps p d] .
      moreover have "st2 k = d k" using run_passes_inside [OF r2 assms(2) _ p(2) d] p(1) set_eq by simp
      ultimately show ?thesis by simp
    next
      case False
      then have "st1 k = st k" "st2 k = st k"
        using run_passes_outside [OF r1] run_passes_outside [OF r2] set_eq by auto
      then show ?thesis by simp
    qed
    ultimately show ?thesis using r1 r2 by (simp add: fun_eq_iff)
  qed
qed

lemma visit_pure: "visit (\<lambda>c. Inr (g c)) cs = Inr (map g cs)"
  by (induction cs) simp_all

lemma visit_returns:
  "\<forall>c\<in>set cs. f c = Inr (g c) \<Longrightarrow> visit f cs = Inr (map g cs)"
  by (induction cs) simp_all

lemma visit_raises:
  "\<exists>c\<in>set cs. \<exists>e. f c = Inl e \<Longrightarrow> \<exists>e. visit f cs = Inl e"
proof (induction cs)
  case Nil
  then show ?case by simp
next
  case (Cons c cs)
  show ?case
  proof (cases "f c")
    case (Inl e)
    then show ?thesis by simp
  next
    case (Inr v)
    with Cons.prems have "\<exists>c\<in>set cs. \<exists>e. f c = Inl e" by auto
    from Cons.IH [OF this] obtain e where "visit f cs = Inl e" by blast
    with Inr show ?thesis by simp
  qed
qed

lemma dom_run_passes:
  "run_passes ps s st = Inr (s', st') \<Longrightarrow> dom st' = dom st \<union> (\<Union>p\<in>set ps. keys_written p)"
proof (induction ps arbitrary: st)
  case Nil
  then show ?case by simp
next
  case (Cons p ps)
  from Cons.prems obtain d where d: "delta p s = Inr d"
    and rest: "run_passes ps s (st ++ d) = Inr (s', st')"
    unfolding run_passes_Cons_iff by blast
  have "dom st' = dom (st ++ d) \<union> (\<Union>p\<in>set ps. keys_written p)"
    using Cons.IH [OF rest] .
  then show ?case using dom_delta [OF d] by auto
qed

lemma delta_ok:
  assumes "wf_surface s" "\<forall>c\<in>set (get_all s). \<exists>v. get_choice_at (get_gene c) 1 = Inr v"
  shows "\<exists>d. delta p s = Inr d"
proof (cases "population s = 0")
  case True
  then show ?thesis
    by (cases p) (simp_all add: delta_def pass_defs)
next
  case False
  with assms(1) have ne: "get_all s \<noteq> []" by (auto simp: wf_surface_def)
  define g where "g c = projr (get_choice_at (get_gene c) (Suc 0))" for c :: cell
  have "\<forall>c\<in>set (get_all s). get_choice_at (get_gene c) (Suc 0) = Inr (g c)"
    using assms(2) unfolding g_def by force
  then have vc: "visit (\<lambda>c. get_choice_at (get_gene c) (Suc 0)) (get_all s)
      = Inr (map g (get_all s))"
    by (rule visit_returns)
  show ?thesis
  proof (cases p)
    case Init_move
    then show ?thesis using False ne
      by (simp add: delta_def init_move_stats_def my_map_def vc py_div_def)
  next
    case Fraction_def
    then show ?thesis using False ne
      by (simp add: delta_def fraction_def_stats_def my_map_def visit_pure mean_def pstdev_def)
  next
    case Gene_length
    then show ?thesis using False ne
      by (simp add: delta_def gene_length_stats_def my_map_def visit_pure mean_int_def pstdev_def)
  next
    case Score
    then show ?thesis using False ne
      by (simp add: delta_def get_score_stats_def my_map_def visit_pure mean_def pstdev_def)
  next
    case Rule
    then show ?thesis using False ne
      by (simp add: delta_def get_rule_stats_def py_div_def Let_def)
  next
    case Age
    then show ?thesis using False ne
      by (simp add: delta_def get_age_stats_def my_map_def visit_pure mean_int_def pstdev_def)
  qed
qed

lemma run_pass_returns:
  assumes "wf_surface s" "\<forall>c\<in>set (get_all s). \<exists>v. get_choice_at (get_gene c) 1 = Inr v"
  shows "\<exists>s' st'. run_pass p s st = Inr (s', st')"
proof -
  from delta_ok [OF assms] obtain d where "delta p s = Inr d" by blast
  then show ?thesis by (simp add: run_pass_frame)
qed

lemma get_stats_returns:
  assumes "wf_surface s" "\<forall>c\<in>set (get_all s). \<exists>v. get_choice_at (get_gene c) 1 = Inr v"
  shows "\<exists>st. get_stats s = Inr (s, st)"
proof -
  have "\<exists>r. run_passes get_stats_order s Map.empty = Inr r"
    unfolding run_passes_ok using delta_ok [OF assms] by blast
  then obtain s' st where r: "run_passes get_stats_order s Map.empty = Inr (s', st)" by force
  then have "s' = s" by (rule run_passes_frame)
  with r show ?thesis by (simp add: get_stats_run_passes)
qed

lemma five_rules_wf:
  "wf_surface five_rules"
  "\<forall>c\<in>set (get_all five_rules). \<exists>v. get_choice_at (get_gene c) 1 = Inr v"
  by (simp_all add: wf_surface_def five_rules_def example_cell_def)

lemma five_rules_counts: "count_of r (get_all five_rules) = 1"
  by (cases r) (simp_all add: count_of_def category_def five_rules_def example_cell_def)

subsection \<open>The empty population\<close>

text \<open>
  Claim C1. On a surface whose population is 0, \<open>get_stats\<close> returns a dictionary in
  which \<open>init_move_frac\<close>, \<open>length_mean\<close>, \<open>length_stddev\<close>, \<open>scores_mean\<close>,
  \<open>scores_stddev\<close>, \<open>age_mean\<close> and \<open>age_stddev\<close> are \<open>None\<close>, and
  \<open>def_frac_mean\<close>, \<open>def_frac_stddev\<close> and the five \<open>rule_frac\<close> keys are 0.0.
\<close>

theorem get_stats_empty_population:
  assumes "population s = 0"
  shows "\<exists>st. get_stats s = Inr (s, st)
     \<and> st ''init_move_frac'' = Some PyNone
     \<and> st ''length_mean'' = Some PyNone \<and> st ''length_stddev'' = Some PyNone
     \<and> st ''scores_mean'' = Some PyNone \<and> st ''scores_stddev'' = Some PyNone
     \<and> st ''age_mean'' = Some PyNone \<and> st ''age_stddev'' = Some PyNone
     \<and> st ''def_frac_mean'' = Some (PyFloat 0.0) \<and> st ''def_frac_stddev'' = Some (PyFloat 0.0)
     \<and> st ''rule_frac_tfts'' = Some (PyFloat 0.0) \<and> st ''rule_frac_t2ts'' = Some (PyFloat 0.0)
     \<and> st ''rule_frac_ftfs'' = Some (PyFloat 0.0) \<and> st ''rule_frac_alld'' = Some (PyFloat 0.0)
     \<and> st ''rule_frac_allc'' = Some (PyFloat 0.0)"
  using assms by (simp add: get_stats_def pass_defs)

theorem get_stats_empty_population_witness:
  "population empty_surface = 0
   \<and> (\<exists>st. get_stats empty_surface = Inr (empty_surface, st)
     \<and> st ''init_move_frac'' = Some PyNone
     \<and> st ''length_mean'' = Some PyNone \<and> st ''length_stddev'' = Some PyNone
     \<and> st ''scores_mean'' = Some PyNone \<and> st ''scores_stddev'' = Some PyNone
     \<and> st ''age_mean'' = Some PyNone \<and> st ''age_stddev'' = Some PyNone
     \<and> st ''def_frac_mean'' = Some (PyFloat 0.0) \<and> st ''def_frac_stddev'' = Some (PyFloat 0.0)
     \<and> st ''rule_frac_tfts'' = Some (PyFloat 0.0) \<and> st ''rule_frac_t2ts'' = Some (PyFloat 0.0)
     \<and> st ''rule_frac_ftfs'' = Some (PyFloat 0.0) \<and> st ''rule_frac_alld'' = Some (PyFloat 0.0)
     \<and> st ''rule_frac_allc'' = Some (PyFloat 0.0))"
proof -
  have h: "population empty_surface = 0" by (simp add: empty_surface_def)
  show ?thesis using h get_stats_empty_population [OF h] by simp
qed

subsection \<open>The keys of the result\<close>

text \<open>
  Claim C2. The dictionary \<open>get_stats\<close> returns has exactly the fourteen keys of its six
  passes. \<open>pop_rel\<close> and \<open>pop_abs\<close> are not among them: \<open>get_population_stats\<close>
  is not one of the calls.
\<close>

theorem get_stats_keys:
  assumes "get_stats s = Inr (s', st)"
  shows "dom st = {''init_move_frac'', ''def_frac_mean'', ''def_frac_stddev'',
                   ''length_mean'', ''length_stddev'', ''scores_mean'', ''scores_stddev'',
                   ''age_mean'', ''age_stddev'', ''rule_frac_tfts'', ''rule_frac_t2ts'',
                   ''rule_frac_ftfs'', ''rule_frac_alld'', ''rule_frac_allc''}
       \<and> ''pop_rel'' \<notin> dom st \<and> ''pop_abs'' \<notin> dom st"
proof -
  from assms have "run_passes get_stats_order s Map.empty = Inr (s', st)"
    by (simp add: get_stats_run_passes)
  from dom_run_passes [OF this]
  have d: "dom st = {''init_move_frac'', ''def_frac_mean'', ''def_frac_stddev'',
                   ''length_mean'', ''length_stddev'', ''scores_mean'', ''scores_stddev'',
                   ''age_mean'', ''age_stddev'', ''rule_frac_tfts'', ''rule_frac_t2ts'',
                   ''rule_frac_ftfs'', ''rule_frac_alld'', ''rule_frac_allc''}"
    by (auto simp: get_stats_order_def)
  show ?thesis unfolding d by simp
qed

theorem get_stats_keys_witness:
  "\<exists>st. get_stats five_rules = Inr (five_rules, st)
     \<and> dom st = {''init_move_frac'', ''def_frac_mean'', ''def_frac_stddev'',
                   ''length_mean'', ''length_stddev'', ''scores_mean'', ''scores_stddev'',
                   ''age_mean'', ''age_stddev'', ''rule_frac_tfts'', ''rule_frac_t2ts'',
                   ''rule_frac_ftfs'', ''rule_frac_alld'', ''rule_frac_allc''}
     \<and> ''pop_rel'' \<notin> dom st \<and> ''pop_abs'' \<notin> dom st"
proof -
  from get_stats_returns [OF five_rules_wf]
  obtain st where st: "get_stats five_rules = Inr (five_rules, st)" by blast
  from get_stats_keys [OF st] st show ?thesis by blast
qed

subsection \<open>The rule fractions\<close>

lemma count_rules_count_of:
  "count_rules n cs =
     \<lparr>num_tfts = num_tfts n + int (count_of Tft cs),
      num_t2ts = num_t2ts n + int (count_of T2t cs),
      num_ftfs = num_ftfs n + int (count_of Ftf cs),
      num_alld = num_alld n + int (count_of Alld cs),
      num_allc = num_allc n + int (count_of Allc cs)\<rparr>"
proof (induction cs arbitrary: n)
  case Nil
  then show ?case by (simp add: count_of_def)
next
  case (Cons c cs)
  show ?case
    unfolding count_rules.simps Cons.IH
    by (simp add: count_of_def category_def)
qed

lemma count_of_total:
  "count_of Tft cs + count_of T2t cs + count_of Ftf cs + count_of Alld cs + count_of Allc cs
     \<le> length cs"
  by (induction cs) (simp_all add: count_of_def category_def)

lemma fractions_sum_le:
  fixes a b c d e n :: nat
  assumes "a + b + c + d + e \<le> n" "0 < n"
  shows "real a / real n * 100 + real b / real n * 100 + real c / real n * 100
       + real d / real n * 100 + real e / real n * 100 \<le> 100"
proof -
  have "real a / real n * 100 + real b / real n * 100 + real c / real n * 100
       + real d / real n * 100 + real e / real n * 100
      = real (a + b + c + d + e) / real n * 100"
    by (simp add: add_divide_distrib distrib_right)
  also have "\<dots> \<le> 1 * 100"
  proof (rule mult_right_mono)
    show "real (a + b + c + d + e) / real n \<le> 1"
      using assms by (simp add: divide_le_eq_1)
  qed simp
  finally show ?thesis by simp
qed

lemma get_rule_stats_value:
  assumes "population s \<noteq> 0"
  shows "get_rule_stats s st = Inr (s, st(
     ''rule_frac_tfts'' \<mapsto> PyFloat (percentage (int (count_of Tft (get_all s))) (population s)),
     ''rule_frac_t2ts'' \<mapsto> PyFloat (percentage (int (count_of T2t (get_all s))) (population s)),
     ''rule_frac_ftfs'' \<mapsto> PyFloat (percentage (int (count_of Ftf (get_all s))) (population s)),
     ''rule_frac_alld'' \<mapsto> PyFloat (percentage (int (count_of Alld (get_all s))) (population s)),
     ''rule_frac_allc'' \<mapsto> PyFloat (percentage (int (count_of Allc (get_all s))) (population s))))"
  using assms
  by (simp add: get_rule_stats_def count_rules_count_of py_div_def percentage_def)

lemma nine_cells_counts:
  "count_of Tft (get_all nine_cells) = 0" "count_of T2t (get_all nine_cells) = 1"
  "count_of Ftf (get_all nine_cells) = 7" "count_of Alld (get_all nine_cells) = 1"
  "count_of Allc (get_all nine_cells) = 0"
  by (simp_all add: count_of_def category_def nine_cells_def example_cell_def)

text \<open>
  Claim C4 says that the five \<open>rule_frac\<close> values sum to at most 100. The stored values
  are rounded twice, once by the division and once by the multiplication, and their sum
  can exceed 100: on nine cells with one, seven and one in three categories the values
  are 0, 11.11111111111111, 77.77777777777779, 11.11111111111111 and 0, given here as the
  fractions they are, and their sum is greater than 100.
\<close>

theorem rule_fractions_exceed_100_counterexample:
  "0 < population nine_cells \<and> wf_surface nine_cells
   \<and> get_rule_stats nine_cells Map.empty = Inr (nine_cells,
        [''rule_frac_tfts'' \<mapsto> PyFloat 0,
         ''rule_frac_t2ts'' \<mapsto> PyFloat (6254999482459022 / 2 ^ 49),
         ''rule_frac_ftfs'' \<mapsto> PyFloat (5473124547151645 / 2 ^ 46),
         ''rule_frac_alld'' \<mapsto> PyFloat (6254999482459022 / 2 ^ 49),
         ''rule_frac_allc'' \<mapsto> PyFloat 0])
   \<and> (100 :: real) < 0 + 6254999482459022 / 2 ^ 49 + 5473124547151645 / 2 ^ 46
                        + 6254999482459022 / 2 ^ 49 + 0"
proof -
  have p: "population nine_cells = 9" by (simp add: nine_cells_def)
  have h1: "0 < population nine_cells" and h2: "wf_surface nine_cells"
    by (simp_all add: nine_cells_def wf_surface_def)
  have "population nine_cells \<noteq> 0" using p by simp
  from get_rule_stats_value [OF this, of Map.empty]
  have r: "get_rule_stats nine_cells Map.empty = Inr (nine_cells,
        [''rule_frac_tfts'' \<mapsto> PyFloat 0,
         ''rule_frac_t2ts'' \<mapsto> PyFloat (6254999482459022 / 2 ^ 49),
         ''rule_frac_ftfs'' \<mapsto> PyFloat (5473124547151645 / 2 ^ 46),
         ''rule_frac_alld'' \<mapsto> PyFloat (6254999482459022 / 2 ^ 49),
         ''rule_frac_allc'' \<mapsto> PyFloat 0])"
    unfolding nine_cells_counts p
    by (simp only: of_nat_0 of_nat_1 of_nat_numeral percentage_zero percentage_1_9 percentage_7_9)
  have s: "(100 :: real) < 0 + 6254999482459022 / 2 ^ 49 + 5473124547151645 / 2 ^ 46
                        + 6254999482459022 / 2 ^ 49 + 0"
    by simp
  from h1 h2 r s show ?thesis by blast
qed

text \<open>
  Claim C4, amended. On a surface with \<open>N > 0\<close> entities, \<open>get_rule_stats\<close> counts each
  entity under at most one category, the first that matches in the order tit-for-tat,
  two-tits-for-tat, forgiving-tit-for-tat, always-defect, always-cooperate (\<open>count_of\<close>
  counts by \<open>category\<close>, which is that first match). Each \<open>rule_frac\<close> value is what
  \<open>float(count) / N * 100.0\<close> evaluates to for its category's count. The five counts
  sum to at most \<open>N\<close>, so the exact quotients \<open>count / N * 100\<close> sum to at most 100;
  nothing is said of the sum of the rounded values. With five entities, one in each
  category, every value is 20.0.
\<close>

theorem get_rule_stats_fractions:
  assumes "0 < population s" "wf_surface s"
  shows "\<exists>a b c d e.
      get_rule_stats s st = Inr (s, st(
         ''rule_frac_tfts'' \<mapsto> PyFloat a, ''rule_frac_t2ts'' \<mapsto> PyFloat b,
         ''rule_frac_ftfs'' \<mapsto> PyFloat c, ''rule_frac_alld'' \<mapsto> PyFloat d,
         ''rule_frac_allc'' \<mapsto> PyFloat e))
    \<and> a = percentage (int (count_of Tft (get_all s))) (population s)
    \<and> b = percentage (int (count_of T2t (get_all s))) (population s)
    \<and> c = percentage (int (count_of Ftf (get_all s))) (population s)
    \<and> d = percentage (int (count_of Alld (get_all s))) (population s)
    \<and> e = percentage (int (count_of Allc (get_all s))) (population s)
    \<and> int (count_of Tft (get_all s) + count_of T2t (get_all s) + count_of Ftf (get_all s)
            + count_of Alld (get_all s) + count_of Allc (get_all s)) \<le> population s
    \<and> real (count_of Tft (get_all s)) / real_of_int (population s) * 100
        + real (count_of T2t (get_all s)) / real_of_int (population s) * 100
        + real (count_of Ftf (get_all s)) / real_of_int (population s) * 100
        + real (count_of Alld (get_all s)) / real_of_int (population s) * 100
        + real (count_of Allc (get_all s)) / real_of_int (population s) * 100 \<le> 100
    \<and> (population s = 5 \<and> (\<forall>r. count_of r (get_all s) = 1)
         \<longrightarrow> a = 20.0 \<and> b = 20.0 \<and> c = 20.0 \<and> d = 20.0 \<and> e = 20.0)"
proof -
  let ?n = "length (get_all s)"
  define f where "f r = percentage (int (count_of r (get_all s))) (population s)" for r
  from assms have n: "population s = int ?n" "0 < ?n" "population s \<noteq> 0"
    by (auto simp: wf_surface_def)
  have val: "get_rule_stats s st = Inr (s, st(
         ''rule_frac_tfts'' \<mapsto> PyFloat (f Tft), ''rule_frac_t2ts'' \<mapsto> PyFloat (f T2t),
         ''rule_frac_ftfs'' \<mapsto> PyFloat (f Ftf), ''rule_frac_alld'' \<mapsto> PyFloat (f Alld),
         ''rule_frac_allc'' \<mapsto> PyFloat (f Allc)))"
    unfolding f_def by (rule get_rule_stats_value [OF n(3)])
  have counts: "int (count_of Tft (get_all s) + count_of T2t (get_all s)
            + count_of Ftf (get_all s) + count_of Alld (get_all s)
            + count_of Allc (get_all s)) \<le> population s"
    unfolding n(1) using count_of_total [of "get_all s"] by (simp only: of_nat_le_iff)
  have sum: "real (count_of Tft (get_all s)) / real_of_int (population s) * 100
        + real (count_of T2t (get_all s)) / real_of_int (population s) * 100
        + real (count_of Ftf (get_all s)) / real_of_int (population s) * 100
        + real (count_of Alld (get_all s)) / real_of_int (population s) * 100
        + real (count_of Allc (get_all s)) / real_of_int (population s) * 100 \<le> 100"
    unfolding n(1) of_int_of_nat_eq
    by (rule fractions_sum_le [OF count_of_total n(2)])
  have five: "population s = 5 \<and> (\<forall>r. count_of r (get_all s) = 1)
         \<longrightarrow> f Tft = 20.0 \<and> f T2t = 20.0 \<and> f Ftf = 20.0 \<and> f Alld = 20.0 \<and> f Allc = 20.0"
    unfolding f_def using percentage_1_5 by simp
  have eqs: "f Tft = percentage (int (count_of Tft (get_all s))) (population s)"
     "f T2t = percentage (int (count_of T2t (get_all s))) (population s)"
     "f Ftf = percentage (int (count_of Ftf (get_all s))) (population s)"
     "f Alld = percentage (int (count_of Alld (get_all s))) (population s)"
     "f Allc = percentage (int (count_of Allc (get_all s))) (population s)"
    by (simp_all only: f_def)
  show ?thesis
    by (intro exI conjI) (rule val eqs counts sum five)+
qed

theorem get_rule_stats_fractions_witness:
  "0 < population five_rules \<and> wf_surface five_rules \<and> population five_rules = 5
   \<and> count_of Tft (get_all five_rules) = 1 \<and> count_of T2t (get_all five_rules) = 1
   \<and> count_of Ftf (get_all five_rules) = 1 \<and> count_of Alld (get_all five_rules) = 1
   \<and> count_of Allc (get_all five_rules) = 1
   \<and> get_rule_stats five_rules Map.empty = Inr (five_rules,
        [''rule_frac_tfts'' \<mapsto> PyFloat 20.0, ''rule_frac_t2ts'' \<mapsto> PyFloat 20.0,
         ''rule_frac_ftfs'' \<mapsto> PyFloat 20.0, ''rule_frac_alld'' \<mapsto> PyFloat 20.0,
         ''rule_frac_allc'' \<mapsto> PyFloat 20.0])"
proof -
  have h1: "0 < population five_rules" and h3: "population five_rules = 5"
    by (simp_all add: five_rules_def)
  have h2: "wf_surface five_rules" by (rule five_rules_wf)
  from get_rule_stats_fractions [OF h1 h2, of Map.empty]
  obtain a b c d e where r: "get_rule_stats five_rules Map.empty = Inr (five_rules,
        [''rule_frac_tfts'' \<mapsto> PyFloat a, ''rule_frac_t2ts'' \<mapsto> PyFloat b,
         ''rule_frac_ftfs'' \<mapsto> PyFloat c, ''rule_frac_alld'' \<mapsto> PyFloat d,
         ''rule_frac_allc'' \<mapsto> PyFloat e])"
    and five: "population five_rules = 5 \<and> (\<forall>r. count_of r (get_all five_rules) = 1)
         \<longrightarrow> a = 20.0 \<and> b = 20.0 \<and> c = 20.0 \<and> d = 20.0 \<and> e = 20.0"
    by blast
  from five h3 five_rules_counts have "a = 20.0" "b = 20.0" "c = 20.0" "d = 20.0" "e = 20.0"
    by blast+
  with r have "get_rule_stats five_rules Map.empty = Inr (five_rules,
        [''rule_frac_tfts'' \<mapsto> PyFloat 20.0, ''rule_frac_t2ts'' \<mapsto> PyFloat 20.0,
         ''rule_frac_ftfs'' \<mapsto> PyFloat 20.0, ''rule_frac_alld'' \<mapsto> PyFloat 20.0,
         ''rule_frac_allc'' \<mapsto> PyFloat 20.0])"
    by simp
  with h1 h2 h3 five_rules_counts show ?thesis by simp
qed

subsection \<open>The initial move\<close>

lemma count_defect_filter:
  "count_defect n moves = n + int (length (filter (py_is literal_d) moves))"
  by (induction moves arbitrary: n) auto

lemma length_filter_map: "length (filter P (map f xs)) = length (filter (\<lambda>x. P (f x)) xs)"
  by (induction xs) simp_all

lemma init_move_value:
  assumes "population s \<noteq> 0" "get_all s \<noteq> []"
    "\<forall>c\<in>set (get_all s). get_choice_at (get_gene c) 1 = Inr (choice c)"
  shows "init_move_stats s st = Inr (s, st(''init_move_frac'' \<mapsto> PyFloat
     (percentage (int (length (filter (\<lambda>c. py_is literal_d (choice c)) (get_all s))))
        (int (length (get_all s))))))"
proof -
  have "\<forall>c\<in>set (get_all s). get_choice_at (get_gene c) (Suc 0) = Inr (choice c)"
    using assms(3) by simp
  then have vc: "visit (\<lambda>c. get_choice_at (get_gene c) (Suc 0)) (get_all s)
      = Inr (map choice (get_all s))"
    by (rule visit_returns)
  show ?thesis
    using assms(1,2)
    by (simp add: init_move_stats_def my_map_def vc py_div_def percentage_def
        count_defect_filter length_filter_map comp_def)
qed

lemma init_move_raises:
  assumes "population s \<noteq> 0" "\<exists>c\<in>set (get_all s). \<exists>e. get_choice_at (get_gene c) 1 = Inl e"
  shows "\<exists>e. init_move_stats s st = Inl e"
proof -
  from visit_raises [OF assms(2)]
  obtain e where "visit (\<lambda>c. get_choice_at (get_gene c) 1) (get_all s) = Inl e" by blast
  then show ?thesis using assms(1) by (simp add: init_move_stats_def my_map_def)
qed

lemma py_is_interned: "py_is literal_d (interned ch) \<longleftrightarrow> ch = CHR ''d''"
  by (simp add: py_is_def interned_def literal_d_def)

lemma py_is_indexed: "\<not> py_is literal_d (indexed ch)"
  by (simp add: py_is_def indexed_def literal_d_def)

lemma five_rules_init_move:
  "init_move_stats five_rules st = Inr (five_rules, st(''init_move_frac'' \<mapsto> PyFloat 60.0))"
proof -
  have a: "population five_rules \<noteq> 0" "get_all five_rules \<noteq> []"
    by (simp_all add: five_rules_def)
  have b: "\<forall>c\<in>set (get_all five_rules).
      get_choice_at (get_gene c) 1 = Inr (interned (get_seq (get_gene c) ! 1))"
    by (simp add: five_rules_def example_cell_def)
  have c: "int (length (filter (\<lambda>c. py_is literal_d (interned (get_seq (get_gene c) ! 1)))
      (get_all five_rules))) = 3" "int (length (get_all five_rules)) = 5"
    by (simp_all add: py_is_interned five_rules_def example_cell_def)
  show ?thesis
    using init_move_value [OF a b, of st] unfolding c percentage_3_5 .
qed

text \<open>
  Claim C5 says that \<open>init_move_frac\<close> is the number of entities whose choice at index 1
  equals the defect symbol, divided by \<open>N\<close>, times 100. The source does not test
  equality: it tests \<open>'d' is move\<close>, the identity of two objects. On five cells whose
  choices at index 1 are the strings d, c, d, d, c, none of them the object of the literal,
  \<open>init_move_stats\<close> stores 0.0. On the same five choices given as the literal's own
  object where they are d, it stores 60.0.
\<close>

theorem init_move_stats_identity_failure:
  "map (\<lambda>c. map_sum id str_value (get_choice_at (get_gene c) 1)) (get_all five_rules_indexed)
     = [Inr ''d'', Inr ''c'', Inr ''d'', Inr ''d'', Inr ''c'']
   \<and> population five_rules_indexed = 5
   \<and> init_move_stats five_rules_indexed Map.empty
       = Inr (five_rules_indexed, [''init_move_frac'' \<mapsto> PyFloat 0.0])
   \<and> map (\<lambda>c. map_sum id str_value (get_choice_at (get_gene c) 1)) (get_all five_rules)
     = [Inr ''d'', Inr ''c'', Inr ''d'', Inr ''d'', Inr ''c'']
   \<and> init_move_stats five_rules Map.empty
       = Inr (five_rules, [''init_move_frac'' \<mapsto> PyFloat 60.0])"
proof -
  have a: "population five_rules_indexed \<noteq> 0" "get_all five_rules_indexed \<noteq> []"
    by (simp_all add: five_rules_indexed_def)
  have b: "\<forall>c\<in>set (get_all five_rules_indexed).
      get_choice_at (get_gene c) 1 = Inr (indexed (get_seq (get_gene c) ! 1))"
    by (simp add: five_rules_indexed_def example_cell_def)
  have c: "int (length (filter (\<lambda>c. py_is literal_d (indexed (get_seq (get_gene c) ! 1)))
      (get_all five_rules_indexed))) = 0"
    by (simp add: py_is_indexed)
  have r: "init_move_stats five_rules_indexed Map.empty
       = Inr (five_rules_indexed, [''init_move_frac'' \<mapsto> PyFloat 0.0])"
    using init_move_value [OF a b, of Map.empty] unfolding c percentage_zero by simp
  have v1: "map (\<lambda>c. map_sum id str_value (get_choice_at (get_gene c) 1))
       (get_all five_rules_indexed) = [Inr ''d'', Inr ''c'', Inr ''d'', Inr ''d'', Inr ''c'']"
    by (simp add: five_rules_indexed_def example_cell_def indexed_def)
  have v2: "map (\<lambda>c. map_sum id str_value (get_choice_at (get_gene c) 1))
       (get_all five_rules) = [Inr ''d'', Inr ''c'', Inr ''d'', Inr ''d'', Inr ''c'']"
    by (simp add: five_rules_def example_cell_def interned_def literal_d_def)
  have p: "population five_rules_indexed = 5" by (simp add: five_rules_indexed_def)
  from v1 p r v2 five_rules_init_move [of Map.empty] show ?thesis by blast
qed

subsection \<open>The population pass\<close>

text \<open>
  Claim C7. On a surface with \<open>width * height > 0\<close>, \<open>get_population_stats\<close> sets
  \<open>pop_rel\<close> to the population divided by \<open>width * height\<close>, times 100, as
  \<open>float(population) / float(width * height) * 100.0\<close> evaluates, and \<open>pop_abs\<close> to the
  integer population; for a population of 3 on a 2 by 2 grid these are 75.0 and 3.
\<close>

theorem get_population_stats_values:
  "(0 < width s * height s \<longrightarrow>
      get_population_stats s st = Inr (s, st(
        ''pop_rel'' \<mapsto> PyFloat (percentage (population s) (width s * height s)),
        ''pop_abs'' \<mapsto> PyInt (population s))))
   \<and> (population s = 3 \<and> width s = 2 \<and> height s = 2 \<longrightarrow>
      get_population_stats s st = Inr (s, st(''pop_rel'' \<mapsto> PyFloat 75.0, ''pop_abs'' \<mapsto> PyInt 3)))"
proof (intro conjI impI)
  assume "0 < width s * height s"
  then have "py_float (width s * height s) \<noteq> 0"
    unfolding py_float_eq_0_iff by (rule less_imp_neq [THEN not_sym])
  then show "get_population_stats s st = Inr (s, st(
        ''pop_rel'' \<mapsto> PyFloat (percentage (population s) (width s * height s)),
        ''pop_abs'' \<mapsto> PyInt (population s)))"
    by (simp add: get_population_stats_def py_div_def percentage_def)
next
  assume a: "population s = 3 \<and> width s = 2 \<and> height s = 2"
  then have "get_population_stats s st = Inr (s, st(
        ''pop_rel'' \<mapsto> PyFloat (percentage 3 4), ''pop_abs'' \<mapsto> PyInt 3))"
    by (simp add: get_population_stats_def py_div_def percentage_def)
  then show "get_population_stats s st
      = Inr (s, st(''pop_rel'' \<mapsto> PyFloat 75.0, ''pop_abs'' \<mapsto> PyInt 3))"
    unfolding percentage_3_4 .
qed

theorem get_population_stats_values_witness:
  "0 < width three_on_four * height three_on_four
   \<and> population three_on_four = 3 \<and> width three_on_four = 2 \<and> height three_on_four = 2
   \<and> get_population_stats three_on_four Map.empty
       = Inr (three_on_four, [''pop_rel'' \<mapsto> PyFloat 75.0, ''pop_abs'' \<mapsto> PyInt 3])"
proof -
  have h: "population three_on_four = 3 \<and> width three_on_four = 2 \<and> height three_on_four = 2"
    by (simp add: three_on_four_def)
  have h0: "0 < width three_on_four * height three_on_four" using h by simp
  from get_population_stats_values [of three_on_four Map.empty] h h0 show ?thesis by blast
qed

subsection \<open>The order of the passes\<close>

text \<open>
  Claim C8. The six passes that \<open>get_stats\<close> calls write key sets that do not overlap:
  two different passes have no key in common, and a pass adds exactly its own keys and
  leaves every other entry of the dictionary as it was. Running the six passes in any
  order on the same surface gives the same dictionary, and an order returns if and only if
  every other order does (which exception is raised, when one is, can depend on the order).
\<close>

theorem passes_order_independent:
  "(p \<noteq> q \<longrightarrow> keys_written p \<inter> keys_written q = {})
   \<and> (run_pass p s st = Inr (s', st') \<longrightarrow>
        dom st' = dom st \<union> keys_written p \<and> (\<forall>k. k \<notin> keys_written p \<longrightarrow> st' k = st k))
   \<and> (mset ps = mset get_stats_order \<longrightarrow>
        map_sum (\<lambda>e. ()) id (run_passes ps s Map.empty) = map_sum (\<lambda>e. ()) id (get_stats s))"
proof (intro conjI impI)
  assume "p \<noteq> q"
  then show "keys_written p \<inter> keys_written q = {}" by (rule keys_written_disjoint)
next
  assume r: "run_pass p s st = Inr (s', st')"
  then have r1: "run_passes [p] s st = Inr (s', st')" by simp
  from dom_run_passes [OF r1] show "dom st' = dom st \<union> keys_written p" by simp
  from run_passes_outside [OF r1] show "\<forall>k. k \<notin> keys_written p \<longrightarrow> st' k = st k" by simp
next
  assume "mset ps = mset get_stats_order"
  moreover have "distinct get_stats_order" by (simp add: get_stats_order_def)
  ultimately show "map_sum (\<lambda>e. ()) id (run_passes ps s Map.empty)
      = map_sum (\<lambda>e. ()) id (get_stats s)"
    unfolding get_stats_run_passes by (rule run_passes_permute)
qed

theorem passes_order_independent_witness:
  "Init_move \<noteq> Age \<and> keys_written Init_move \<inter> keys_written Age = {}
   \<and> run_pass Init_move five_rules [''age_mean'' \<mapsto> PyInt 3]
        = Inr (five_rules, [''age_mean'' \<mapsto> PyInt 3, ''init_move_frac'' \<mapsto> PyFloat 60.0])
   \<and> dom [''age_mean'' \<mapsto> PyInt 3, ''init_move_frac'' \<mapsto> PyFloat 60.0]
        = dom [''age_mean'' \<mapsto> PyInt 3] \<union> keys_written Init_move
   \<and> mset [Age, Rule, Score, Gene_length, Fraction_def, Init_move] = mset get_stats_order
   \<and> map_sum (\<lambda>e. ()) id
        (run_passes [Age, Rule, Score, Gene_length, Fraction_def, Init_move] five_rules Map.empty)
       = map_sum (\<lambda>e. ()) id (get_stats five_rules)
   \<and> (\<exists>st. get_stats five_rules = Inr (five_rules, st))"
proof -
  have h1: "Init_move \<noteq> Age" by simp
  have h2: "run_pass Init_move five_rules [''age_mean'' \<mapsto> PyInt 3]
        = Inr (five_rules, [''age_mean'' \<mapsto> PyInt 3, ''init_move_frac'' \<mapsto> PyFloat 60.0])"
    by (simp add: five_rules_init_move)
  have h3: "mset [Age, Rule, Score, Gene_length, Fraction_def, Init_move] = mset get_stats_order"
    by (simp add: get_stats_order_def)
  note t = passes_order_independent [of Init_move Age five_rules "[''age_mean'' \<mapsto> PyInt 3]"
      five_rules "[''age_mean'' \<mapsto> PyInt 3, ''init_move_frac'' \<mapsto> PyFloat 60.0]"
      "[Age, Rule, Score, Gene_length, Fraction_def, Init_move]"]
  from t h1 have c1: "keys_written Init_move \<inter> keys_written Age = {}" by blast
  from t h2 have c2: "dom [''age_mean'' \<mapsto> PyInt 3, ''init_move_frac'' \<mapsto> PyFloat 60.0]
        = dom [''age_mean'' \<mapsto> PyInt 3] \<union> keys_written Init_move" by blast
  from t h3 have c3: "map_sum (\<lambda>e. ()) id
        (run_passes [Age, Rule, Score, Gene_length, Fraction_def, Init_move] five_rules Map.empty)
       = map_sum (\<lambda>e. ()) id (get_stats five_rules)" by blast
  from h1 h2 h3 c1 c2 c3 get_stats_returns [OF five_rules_wf] show ?thesis by blast
qed

section \<open>Properties of the series plotter\<close>

lemma map_of_Some_key: "map_of al k = Some v \<Longrightarrow> k \<in> fst ` set al"
  by (metis domI dom_map_of_conv_image_fst)

subsection \<open>Keys\<close>

lemma keys_update: "set (map fst (AList.update k v al)) = insert k (set (map fst al))"
  using AList.dom_update [of k v al] by simp

lemma keys_init_plot_data:
  "set (map fst (init_plot_data pd ks)) = set (map fst pd) \<union> set ks"
  by (induction ks arbitrary: pd) (simp_all add: keys_update del: set_map)

lemma append_point_keys:
  "append_point i pd kv = Inr pd' \<Longrightarrow> map fst pd' = map fst pd"
  by (auto simp: append_point_def AList.update_keys dest: map_of_Some_key
      split: option.splits)

lemma append_point_fails:
  "append_point i pd kv = Inl e \<longleftrightarrow> e = KeyError \<and> fst kv \<notin> set (map fst pd)"
  by (auto simp: append_point_def map_of_eq_None_iff dest: map_of_Some_key split: option.splits)

lemma add_items_keys:
  "add_items i pd d = Inr pd' \<Longrightarrow> map fst pd' = map fst pd"
proof (induction d arbitrary: pd)
  case Nil
  then show ?case by simp
next
  case (Cons kv kvs)
  then obtain pd1 where a: "append_point i pd kv = Inr pd1" and b: "add_items i pd1 kvs = Inr pd'"
    by (cases "append_point i pd kv") auto
  from Cons.IH [OF b] append_point_keys [OF a] show ?case by simp
qed

lemma add_items_fails:
  "add_items i pd d = Inl e \<longleftrightarrow> e = KeyError \<and> \<not> set (map fst d) \<subseteq> set (map fst pd)"
proof (induction d arbitrary: pd)
  case Nil
  then show ?case by simp
next
  case (Cons kv kvs)
  show ?case
  proof (cases "append_point i pd kv")
    case (Inl e')
    then show ?thesis using append_point_fails [of i pd kv e'] by auto
  next
    case (Inr pd1)
    have "fst kv \<in> set (map fst pd)"
      using Inr append_point_fails [of i pd kv KeyError] by auto
    then show ?thesis
      using Inr Cons.IH [of pd1] append_point_keys [OF Inr] by simp
  qed
qed

lemma add_records_keys:
  "add_records i pd ds = Inr pd' \<Longrightarrow> map fst pd' = map fst pd"
proof (induction ds arbitrary: i pd)
  case Nil
  then show ?case by simp
next
  case (Cons d ds)
  then obtain pd1 where a: "add_items i pd d = Inr pd1" and b: "add_records (Suc i) pd1 ds = Inr pd'"
    by (cases "add_items i pd d") auto
  from Cons.IH [OF b] add_items_keys [OF a] show ?case by simp
qed

lemma add_records_fails:
  "add_records i pd ds = Inl e \<longleftrightarrow>
     e = KeyError \<and> (\<exists>d\<in>set ds. \<not> set (map fst d) \<subseteq> set (map fst pd))"
proof (induction ds arbitrary: i pd)
  case Nil
  then show ?case by simp
next
  case (Cons d ds)
  show ?case
  proof (cases "add_items i pd d")
    case (Inl e')
    then show ?thesis using add_items_fails [of i pd d e'] by auto
  next
    case (Inr pd1)
    have "set (map fst d) \<subseteq> set (map fst pd)"
      using Inr add_items_fails [of i pd d KeyError] by auto
    then show ?thesis
      using Inr Cons.IH [of "Suc i" pd1] add_items_keys [OF Inr] by simp
  qed
qed

lemma scatter_all_returns:
  "set ks \<subseteq> set (map fst pd) \<Longrightarrow> \<exists>to_plot. scatter_all pd ks = Inr to_plot"
proof (induction ks)
  case Nil
  then show ?case by simp
next
  case (Cons k ks)
  then obtain t where "map_of pd k = Some t"
    by (cases "map_of pd k") (auto simp: map_of_eq_None_iff)
  moreover from Cons obtain to_plot where "scatter_all pd ks = Inr to_plot" by auto
  ultimately show ?case by simp
qed

lemma build_plot_cases:
  assumes "data \<noteq> []"
  shows "(\<exists>d\<in>set data. \<not> set (map fst d) \<subseteq> set (map fst (hd data))) \<longrightarrow>
           build_plot data = Inl KeyError"
    and "(\<forall>d\<in>set data. set (map fst d) \<subseteq> set (map fst (hd data))) \<longrightarrow>
           (\<exists>to_plot. build_plot data = Inr to_plot)"
proof -
  from assms obtain d0 ds where data: "data = d0 # ds" by (cases data) auto
  let ?pd0 = "init_plot_data [] (map fst d0)"
  have k0: "set (map fst ?pd0) = set (map fst d0)"
    using keys_init_plot_data [of "[]" "map fst d0"] by simp
  show "(\<exists>d\<in>set data. \<not> set (map fst d) \<subseteq> set (map fst (hd data))) \<longrightarrow>
           build_plot data = Inl KeyError"
  proof
    assume "\<exists>d\<in>set data. \<not> set (map fst d) \<subseteq> set (map fst (hd data))"
    then have "\<exists>d\<in>set data. \<not> set (map fst d) \<subseteq> set (map fst ?pd0)"
      unfolding k0 by (simp add: data)
    then have "add_records 0 ?pd0 data = Inl KeyError"
      using add_records_fails [of 0 ?pd0 data KeyError] by simp
    then show "build_plot data = Inl KeyError"
      by (simp add: build_plot_def data)
  qed
  show "(\<forall>d\<in>set data. set (map fst d) \<subseteq> set (map fst (hd data))) \<longrightarrow>
           (\<exists>to_plot. build_plot data = Inr to_plot)"
  proof
    assume "\<forall>d\<in>set data. set (map fst d) \<subseteq> set (map fst (hd data))"
    then have ok: "\<not> (\<exists>d\<in>set data. \<not> set (map fst d) \<subseteq> set (map fst ?pd0))"
      unfolding k0 by (simp add: data)
    obtain pd where pd: "add_records 0 ?pd0 data = Inr pd"
    proof (cases "add_records 0 ?pd0 data")
      case (Inl e)
      with ok add_records_fails [of 0 ?pd0 data e] show ?thesis by blast
    next
      case (Inr pd)
      then show ?thesis by (rule that)
    qed
    have "set (sort (map fst pd)) \<subseteq> set (map fst pd)" by simp
    from scatter_all_returns [OF this] obtain to_plot
      where "scatter_all pd (sort (map fst pd)) = Inr to_plot" by blast
    with pd show "\<exists>to_plot. build_plot data = Inr to_plot"
      by (simp add: build_plot_def data)
  qed
qed

subsection \<open>The traces that are built\<close>

lemma update_fresh:
  "k \<notin> fst ` set al \<Longrightarrow> AList.update k v al = al @ [(k, v)]"
  by (induction al) auto

lemma update_tabulated:
  "distinct ks \<Longrightarrow> k \<in> set ks \<Longrightarrow>
     AList.update k v (map (\<lambda>k'. (k', g k')) ks) = map (\<lambda>k'. (k', (g(k := v)) k')) ks"
  by (induction ks) (auto simp: AList.update_def)

lemma map_of_tabulated:
  "k \<in> set ks \<Longrightarrow> map_of (map (\<lambda>k'. (k', g k')) ks) k = Some (g k)"
  by (induction ks) auto

lemma init_plot_data_fresh:
  "distinct ks \<Longrightarrow> set ks \<inter> fst ` set pd = {} \<Longrightarrow>
     init_plot_data pd ks = pd @ map (\<lambda>key. (key,
        \<lparr>trace_x = [], trace_y = [], trace_mode = ''lines+markers'', trace_name = key\<rparr>)) ks"
proof (induction ks arbitrary: pd)
  case Nil
  then show ?case by simp
next
  case (Cons k ks)
  let ?v = "\<lparr>trace_x = [], trace_y = [], trace_mode = ''lines+markers'', trace_name = k\<rparr>"
  from Cons.prems have fresh: "k \<notin> fst ` set pd" by auto
  then have u: "AList.update k ?v pd = pd @ [(k, ?v)]" by (rule update_fresh)
  from Cons.prems have "distinct ks" "set ks \<inter> fst ` set (pd @ [(k, ?v)]) = {}" by auto
  from Cons.IH [OF this] show ?case by (simp add: u)
qed

lemma add_items_tabulated:
  assumes "distinct ks" "distinct (map fst d)" "set (map fst d) \<subseteq> set ks"
  shows "add_items i (map (\<lambda>k. (k, g k)) ks) d =
     Inr (map (\<lambda>k. (k, case map_of d k of
                          None \<Rightarrow> g k
                        | Some v \<Rightarrow> (g k)\<lparr>trace_x := trace_x (g k) @ [i],
                                           trace_y := trace_y (g k) @ [v]\<rparr>)) ks)"
  using assms(2,3)
proof (induction d arbitrary: g)
  case Nil
  then show ?case by simp
next
  case (Cons kv kvs)
  obtain k v where kv: "kv = (k, v)" by (cases kv)
  from Cons.prems kv have k: "k \<in> set ks" "k \<notin> fst ` set kvs"
    and rest: "distinct (map fst kvs)" "set (map fst kvs) \<subseteq> set ks"
    by auto
  let ?g1 = "g(k := (g k)\<lparr>trace_x := trace_x (g k) @ [i], trace_y := trace_y (g k) @ [v]\<rparr>)"
  have step: "append_point i (map (\<lambda>k. (k, g k)) ks) kv = Inr (map (\<lambda>k'. (k', ?g1 k')) ks)"
    by (simp add: append_point_def kv map_of_tabulated [OF k(1)]
        update_tabulated [OF assms(1) k(1)])
  have none: "map_of kvs k = None" using k(2) by (simp add: map_of_eq_None_iff)
  have "map (\<lambda>k'. (k', case map_of kvs k' of
                          None \<Rightarrow> ?g1 k'
                        | Some v' \<Rightarrow> (?g1 k')\<lparr>trace_x := trace_x (?g1 k') @ [i],
                                           trace_y := trace_y (?g1 k') @ [v']\<rparr>)) ks
      = map (\<lambda>k'. (k', case map_of (kv # kvs) k' of
                          None \<Rightarrow> g k'
                        | Some v' \<Rightarrow> (g k')\<lparr>trace_x := trace_x (g k') @ [i],
                                           trace_y := trace_y (g k') @ [v']\<rparr>)) ks"
  proof (rule map_cong [OF refl])
    fix k' assume "k' \<in> set ks"
    show "(k', case map_of kvs k' of
                          None \<Rightarrow> ?g1 k'
                        | Some v' \<Rightarrow> (?g1 k')\<lparr>trace_x := trace_x (?g1 k') @ [i],
                                           trace_y := trace_y (?g1 k') @ [v']\<rparr>)
      = (k', case map_of (kv # kvs) k' of
                          None \<Rightarrow> g k'
                        | Some v' \<Rightarrow> (g k')\<lparr>trace_x := trace_x (g k') @ [i],
                                           trace_y := trace_y (g k') @ [v']\<rparr>)"
      by (cases "k' = k") (simp_all add: kv none split: option.splits)
  qed
  then show ?case
    unfolding add_items.simps step and_then_simps Cons.IH [OF rest]
    by (rule arg_cong)
qed

lemma add_records_tabulated:
  assumes "distinct ks" "\<forall>d\<in>set ds. distinct (map fst d) \<and> set (map fst d) = set ks"
  shows "add_records i (map (\<lambda>k. (k, g k)) ks) ds =
     Inr (map (\<lambda>k. (k, (g k)\<lparr>trace_x := trace_x (g k) @ [i..<i + length ds],
                               trace_y := trace_y (g k) @ map (\<lambda>d. the (map_of d k)) ds\<rparr>)) ks)"
  using assms(2)
proof (induction ds arbitrary: i g)
  case Nil
  then show ?case by simp
next
  case (Cons d ds)
  from Cons.prems have d: "distinct (map fst d)" "set (map fst d) = set ks"
    and rest: "\<forall>d\<in>set ds. distinct (map fst d) \<and> set (map fst d) = set ks"
    by auto
  let ?g1 = "\<lambda>k. (g k)\<lparr>trace_x := trace_x (g k) @ [i],
                        trace_y := trace_y (g k) @ [the (map_of d k)]\<rparr>"
  have "add_items i (map (\<lambda>k. (k, g k)) ks) d =
     Inr (map (\<lambda>k. (k, case map_of d k of
                          None \<Rightarrow> g k
                        | Some v \<Rightarrow> (g k)\<lparr>trace_x := trace_x (g k) @ [i],
                                           trace_y := trace_y (g k) @ [v]\<rparr>)) ks)"
    using add_items_tabulated [OF assms(1) d(1)] d(2) by simp
  also have "map (\<lambda>k. (k, case map_of d k of
                          None \<Rightarrow> g k
                        | Some v \<Rightarrow> (g k)\<lparr>trace_x := trace_x (g k) @ [i],
                                           trace_y := trace_y (g k) @ [v]\<rparr>)) ks
      = map (\<lambda>k. (k, ?g1 k)) ks"
  proof (rule map_cong [OF refl])
    fix k assume "k \<in> set ks"
    with d(2) have "k \<in> fst ` set d" by simp
    then obtain v where "map_of d k = Some v"
      by (cases "map_of d k") (auto simp: map_of_eq_None_iff)
    then show "(k, case map_of d k of
                          None \<Rightarrow> g k
                        | Some v \<Rightarrow> (g k)\<lparr>trace_x := trace_x (g k) @ [i],
                                           trace_y := trace_y (g k) @ [v]\<rparr>) = (k, ?g1 k)"
      by simp
  qed
  finally have step: "add_items i (map (\<lambda>k. (k, g k)) ks) d = Inr (map (\<lambda>k. (k, ?g1 k)) ks)" .
  have upt: "[i..<Suc (i + length ds)] = i # [Suc i..<Suc (i + length ds)]"
    by (rule upt_conv_Cons) simp
  show ?case
    unfolding add_records.simps step and_then_simps Cons.IH [OF rest, of "Suc i" ?g1]
    by (simp add: upt del: upt_Suc)
qed

lemma scatter_all_tabulated:
  "set ks' \<subseteq> set ks \<Longrightarrow> scatter_all (map (\<lambda>k. (k, g k)) ks) ks' = Inr (map g ks')"
  by (induction ks') (simp_all add: map_of_tabulated)

lemma build_plot_series:
  assumes "data \<noteq> []"
    "\<forall>d\<in>set data. distinct (map fst d) \<and> set (map fst d) = set (map fst (hd data))"
  shows "build_plot data =
     Inr (map (\<lambda>key. \<lparr>trace_x = [0..<length data],
                        trace_y = map (\<lambda>d. the (map_of d key)) data,
                        trace_mode = ''lines+markers'', trace_name = key\<rparr>)
            (sort (map fst (hd data))))"
proof -
  from assms(1) obtain d0 ds where data: "data = d0 # ds" by (cases data) auto
  let ?ks = "map fst d0"
  let ?new = "\<lambda>key. \<lparr>trace_x = [], trace_y = [], trace_mode = ''lines+markers'',
                       trace_name = key\<rparr>"
  from assms(2) have dist: "distinct ?ks"
    and all: "\<forall>d\<in>set data. distinct (map fst d) \<and> set (map fst d) = set ?ks"
    by (simp_all add: data)
  have init: "init_plot_data [] ?ks = map (\<lambda>k. (k, ?new k)) ?ks"
    using init_plot_data_fresh [OF dist, of "[]"] by simp
  let ?fin = "\<lambda>key. \<lparr>trace_x = [0..<length data],
                        trace_y = map (\<lambda>d. the (map_of d key)) data,
                        trace_mode = ''lines+markers'', trace_name = key\<rparr>"
  have recs: "add_records 0 (map (\<lambda>k. (k, ?new k)) ?ks) data = Inr (map (\<lambda>k. (k, ?fin k)) ?ks)"
    using add_records_tabulated [OF dist all, of 0 ?new] by simp
  have keys: "map fst (map (\<lambda>k. (k, ?fin k)) ?ks) = ?ks" by (simp add: comp_def)
  have "build_plot data =
      and_then (add_records 0 (init_plot_data [] ?ks) data)
        (\<lambda>pd. scatter_all pd (sort (map fst pd)))"
    by (simp add: build_plot_def data)
  also have "\<dots> = scatter_all (map (\<lambda>k. (k, ?fin k)) ?ks)
      (sort (map fst (map (\<lambda>k. (k, ?fin k)) ?ks)))"
    unfolding init recs and_then_simps by (rule refl)
  also have "\<dots> = scatter_all (map (\<lambda>k. (k, ?fin k)) ?ks) (sort ?ks)"
    unfolding keys by (rule refl)
  also have "\<dots> = Inr (map ?fin (sort ?ks))"
    by (rule scatter_all_tabulated) simp
  finally show ?thesis by (simp add: data)
qed

text \<open>
  Claim C6. For a sequence of dictionaries that all have the key set of the first one,
  \<open>output_plot\<close> hands the plotting call one trace per key, in lexicographically sorted
  key order; the trace of a key has the x-values \<open>0, 1, \<dots>, len(data) - 1\<close> and at
  position \<open>i\<close> the y-value \<open>data[i][key]\<close>. For the two dictionaries
  \<open>{a: 1, b: 2}\<close> and \<open>{a: 3, b: 4}\<close> these are the trace \<open>a\<close> with the points
  (0,1), (1,3) and then the trace \<open>b\<close> with the points (0,2), (1,4). The empty sequence
  has no first dictionary and no key: there \<open>data[0]\<close> raises \<open>IndexError\<close> and the
  plotting call is not reached.
\<close>

theorem output_plot_series:
  "((\<forall>d\<in>set data. distinct (map fst d) \<and> set (map fst d) = set (map fst (hd data)))
     \<longrightarrow> output_plot py_plot path data fs =
          (if data = [] then (Inl IndexError, fs)
           else py_plot
             (map (\<lambda>key. \<lparr>trace_x = [0..<length data],
                           trace_y = map (\<lambda>d. the (map_of d key)) data,
                           trace_mode = ''lines+markers'', trace_name = key\<rparr>)
               (sort (map fst (hd data))))
             path fs))
   \<and> output_plot py_plot path
        [[(''a'', PyInt 1), (''b'', PyInt 2)], [(''a'', PyInt 3), (''b'', PyInt 4)]] fs =
       py_plot
          [\<lparr>trace_x = [0, 1], trace_y = [PyInt 1, PyInt 3],
            trace_mode = ''lines+markers'', trace_name = ''a''\<rparr>,
           \<lparr>trace_x = [0, 1], trace_y = [PyInt 2, PyInt 4],
            trace_mode = ''lines+markers'', trace_name = ''b''\<rparr>]
          path fs"
proof (intro conjI impI)
  assume same: "\<forall>d\<in>set data. distinct (map fst d) \<and> set (map fst d) = set (map fst (hd data))"
  show "output_plot py_plot path data fs =
          (if data = [] then (Inl IndexError, fs)
           else py_plot
             (map (\<lambda>key. \<lparr>trace_x = [0..<length data],
                           trace_y = map (\<lambda>d. the (map_of d key)) data,
                           trace_mode = ''lines+markers'', trace_name = key\<rparr>)
               (sort (map fst (hd data))))
             path fs)"
  proof (cases "data = []")
    case True
    then show ?thesis by (simp add: output_plot_def build_plot_def)
  next
    case False
    from build_plot_series [OF False same] False show ?thesis
      by (simp add: output_plot_def)
  qed
next
  have "build_plot [[(''a'', PyInt 1), (''b'', PyInt 2)], [(''a'', PyInt 3), (''b'', PyInt 4)]]
     = Inr [\<lparr>trace_x = [0, 1], trace_y = [PyInt 1, PyInt 3],
            trace_mode = ''lines+markers'', trace_name = ''a''\<rparr>,
           \<lparr>trace_x = [0, 1], trace_y = [PyInt 2, PyInt 4],
            trace_mode = ''lines+markers'', trace_name = ''b''\<rparr>]"
    by code_simp
  then show "output_plot py_plot path
        [[(''a'', PyInt 1), (''b'', PyInt 2)], [(''a'', PyInt 3), (''b'', PyInt 4)]] fs =
       py_plot
          [\<lparr>trace_x = [0, 1], trace_y = [PyInt 1, PyInt 3],
            trace_mode = ''lines+markers'', trace_name = ''a''\<rparr>,
           \<lparr>trace_x = [0, 1], trace_y = [PyInt 2, PyInt 4],
            trace_mode = ''lines+markers'', trace_name = ''b''\<rparr>]
          path fs"
    by (simp add: output_plot_def)
qed

theorem output_plot_series_witness:
  "distinct (map fst [(''b'', PyInt 2), (''a'', PyInt 1)])
   \<and> distinct (map fst [(''a'', PyInt 3), (''b'', PyInt 4)])
   \<and> set (map fst [(''a'', PyInt 3), (''b'', PyInt 4)])
       = set (map fst [(''b'', PyInt 2), (''a'', PyInt 1)])
   \<and> output_plot write_chart ''chart''
        [[(''b'', PyInt 2), (''a'', PyInt 1)], [(''a'', PyInt 3), (''b'', PyInt 4)]] Map.empty =
       (Inr (), [''chart'' \<mapsto>
          [\<lparr>trace_x = [0, 1], trace_y = [PyInt 1, PyInt 3],
            trace_mode = ''lines+markers'', trace_name = ''a''\<rparr>,
           \<lparr>trace_x = [0, 1], trace_y = [PyInt 2, PyInt 4],
            trace_mode = ''lines+markers'', trace_name = ''b''\<rparr>]])
   \<and> output_plot write_chart ''chart'' [] Map.empty = (Inl IndexError, Map.empty)"
proof -
  let ?data = "[[(''b'', PyInt 2), (''a'', PyInt 1)], [(''a'', PyInt 3), (''b'', PyInt 4)]]"
  have h: "\<forall>d\<in>set ?data. distinct (map fst d) \<and> set (map fst d) = set (map fst (hd ?data))"
    by auto
  have s: "sort (map fst (hd ?data)) = [''a'', ''b'']" by code_simp
  from output_plot_series [of ?data write_chart "''chart''" Map.empty] h
  have "output_plot write_chart ''chart'' ?data Map.empty =
          write_chart
             (map (\<lambda>key. \<lparr>trace_x = [0..<length ?data],
                           trace_y = map (\<lambda>d. the (map_of d key)) ?data,
                           trace_mode = ''lines+markers'', trace_name = key\<rparr>)
               (sort (map fst (hd ?data))))
             ''chart'' Map.empty"
    by simp
  then have a: "output_plot write_chart ''chart'' ?data Map.empty =
       (Inr (), [''chart'' \<mapsto>
          [\<lparr>trace_x = [0, 1], trace_y = [PyInt 1, PyInt 3],
            trace_mode = ''lines+markers'', trace_name = ''a''\<rparr>,
           \<lparr>trace_x = [0, 1], trace_y = [PyInt 2, PyInt 4],
            trace_mode = ''lines+markers'', trace_name = ''b''\<rparr>]])"
    unfolding s by (simp add: upt_rec write_chart_def)
  have "\<forall>d\<in>set ([] :: pydict list).
      distinct (map fst d) \<and> set (map fst d) = set (map fst (hd []))" by simp
  with output_plot_series [of "[]" write_chart "''chart''" Map.empty]
  have b: "output_plot write_chart ''chart'' [] Map.empty = (Inl IndexError, Map.empty)"
    by simp
  from a b show ?thesis by auto
qed

text \<open>
  Claim C3 says that \<open>output_plot\<close> raises a key-lookup error whenever the key set of a
  later dictionary differs from that of the first. It does not when the later dictionary
  only lacks keys: for \<open>{a: 1, b: 2}\<close> followed by \<open>{a: 3}\<close> the traces are built, the
  trace \<open>b\<close> one point short, and handed to the plotting call.
\<close>

theorem output_plot_missing_key_counterexample:
  "2 \<le> length [[(''a'', PyInt 1), (''b'', PyInt 2)], [(''a'', PyInt 3)]]
   \<and> set (map fst [(''a'', PyInt 3)]) \<noteq> set (map fst [(''a'', PyInt 1), (''b'', PyInt 2)])
   \<and> build_plot [[(''a'', PyInt 1), (''b'', PyInt 2)], [(''a'', PyInt 3)]]
       = Inr [\<lparr>trace_x = [0, 1], trace_y = [PyInt 1, PyInt 3],
              trace_mode = ''lines+markers'', trace_name = ''a''\<rparr>,
             \<lparr>trace_x = [0], trace_y = [PyInt 2],
              trace_mode = ''lines+markers'', trace_name = ''b''\<rparr>]
   \<and> fst (output_plot write_chart ''chart''
          [[(''a'', PyInt 1), (''b'', PyInt 2)], [(''a'', PyInt 3)]] Map.empty) \<noteq> Inl KeyError
   \<and> output_plot write_chart ''chart''
        [[(''a'', PyInt 1), (''b'', PyInt 2)], [(''a'', PyInt 3)]] Map.empty
       = (Inr (), [''chart'' \<mapsto>
            [\<lparr>trace_x = [0, 1], trace_y = [PyInt 1, PyInt 3],
              trace_mode = ''lines+markers'', trace_name = ''a''\<rparr>,
             \<lparr>trace_x = [0], trace_y = [PyInt 2],
              trace_mode = ''lines+markers'', trace_name = ''b''\<rparr>]])"
proof -
  have b: "build_plot [[(''a'', PyInt 1), (''b'', PyInt 2)], [(''a'', PyInt 3)]]
       = Inr [\<lparr>trace_x = [0, 1], trace_y = [PyInt 1, PyInt 3],
              trace_mode = ''lines+markers'', trace_name = ''a''\<rparr>,
             \<lparr>trace_x = [0], trace_y = [PyInt 2],
              trace_mode = ''lines+markers'', trace_name = ''b''\<rparr>]"
    by code_simp
  show ?thesis by (simp add: output_plot_def b write_chart_def)
qed

text \<open>
  Claim C3, amended. \<open>output_plot\<close> raises \<open>KeyError\<close> and writes nothing whenever
  some dictionary of the sequence has a key that the first dictionary lacks: the plotting
  call is not reached and the files are as they were.
\<close>

theorem output_plot_key_error:
  "(\<exists>d\<in>set data. \<not> set (map fst d) \<subseteq> set (map fst (hd data)))
     \<longrightarrow> output_plot py_plot path data fs = (Inl KeyError, fs)"
proof
  assume bad: "\<exists>d\<in>set data. \<not> set (map fst d) \<subseteq> set (map fst (hd data))"
  then have "data \<noteq> []" by auto
  from build_plot_cases(1) [OF this] bad have "build_plot data = Inl KeyError" by blast
  then show "output_plot py_plot path data fs = (Inl KeyError, fs)"
    by (simp add: output_plot_def)
qed

theorem output_plot_key_error_witness:
  "[(''a'', PyInt 3), (''c'', PyInt 5)]
        \<in> set [[(''a'', PyInt 1), (''b'', PyInt 2)], [(''a'', PyInt 3), (''c'', PyInt 5)]]
   \<and> \<not> set (map fst [(''a'', PyInt 3), (''c'', PyInt 5)])
         \<subseteq> set (map fst [(''a'', PyInt 1), (''b'', PyInt 2)])
   \<and> output_plot write_chart ''chart''
        [[(''a'', PyInt 1), (''b'', PyInt 2)], [(''a'', PyInt 3), (''c'', PyInt 5)]]
        [''old'' \<mapsto> []]
       = (Inl KeyError, [''old'' \<mapsto> []])"
proof -
  let ?bad = "[[(''a'', PyInt 1), (''b'', PyInt 2)], [(''a'', PyInt 3), (''c'', PyInt 5)]]"
  have h2: "\<exists>d\<in>set ?bad. \<not> set (map fst d) \<subseteq> set (map fst (hd ?bad))" by simp
  from output_plot_key_error [of ?bad write_chart "''chart''" "[''old'' \<mapsto> []]"] h2
  have a: "output_plot write_chart ''chart'' ?bad [''old'' \<mapsto> []]
       = (Inl KeyError, [''old'' \<mapsto> []])"
    by blast
  from a show ?thesis by simp
qed

end
